theory Spec2Isabelle
  imports Main "HOL-Library.Sublist" "HOL-Library.AList"
begin

section \<open>The conversation worker registry (WorkerManage)\<close>

text \<open>
  The module keeps one module-level array \<open>taskList\<close> of \<open>{id, task}\<close> objects.
  Its functions are modelled with explicit state passing over a record that holds
  the array together with what the claims observe of the outside world:
  \<^item> \<open>trace\<close>: the constructor calls, the \<open>task.kill()\<close> calls and the reads of the
    two persistence stores, in the order the code makes them;
  \<^item> \<open>allocated\<close>: the number of objects constructed so far, which gives every
    \<open>new\<close> object an identity of its own.
\<close>

subsection \<open>Data\<close>

text \<open>\<open>TChatConversation\<close>: the fields the module reads. The type tag stays a string,
  as the \<open>switch\<close> of \<open>buildConversation\<close> has a \<open>default\<close> branch; \<open>extra\<close> is opaque.\<close>

record 'x conversation =
  conversation_id :: string
  conversation_type :: string
  conversation_extra :: 'x

text \<open>A task object. The two manager classes are constructed by the module from
  \<open>{...conversation.extra, conversation_id: conversation.id}\<close>; the first argument
  is the identity of the object. \<open>ExternalTask\<close> is a task some caller constructed
  and hands to \<open>addTask\<close>.\<close>

datatype 'x task =
    AcpAgentManager nat 'x string
  | CodexAgentManager nat 'x string
  | ExternalTask nat

text \<open>A thrown JavaScript \<open>Error\<close> (or a rejected promise) with its message.\<close>

datatype exn = Error string

datatype 'x event =
    New_task "'x task"
  | Task_kill "'x task"
  | Db_getConversation string
  | ProcessChat_get string

record 'x registry =
  taskList :: "(string \<times> 'x task) list"
  trace :: "'x event list"
  allocated :: nat

definition empty_registry :: "'x registry" where
  "empty_registry = \<lparr>taskList = [], trace = [], allocated = 0\<rparr>"

text \<open>The result object of \<open>db.getConversation(id)\<close>.\<close>

record 'x db_result =
  success :: bool
  data :: "'x conversation option"

subsection \<open>Operations\<close>

text \<open>\<open>taskList.find((item) => item.id === id)?.task\<close>: the task of the first entry
  with that id, \<open>None\<close> for \<open>undefined\<close>.\<close>

definition getTaskById :: "'x registry \<Rightarrow> string \<Rightarrow> 'x task option" where
  "getTaskById s i = map_option snd (find (\<lambda>item. fst item = i) (taskList s))"

text \<open>\<open>buildConversation\<close>: the cached task when there is one (an object is truthy),
  otherwise the \<open>switch\<close> over the type tag. \<open>None\<close> is the \<open>null\<close> of the default branch.\<close>

definition buildConversation ::
  "'x conversation \<Rightarrow> 'x registry \<Rightarrow> 'x task option \<times> 'x registry" where
  "buildConversation conversation s =
    (case getTaskById s (conversation_id conversation) of
       Some task \<Rightarrow> (Some task, s)
     | None \<Rightarrow>
        if conversation_type conversation = ''acp'' then
          (let task = AcpAgentManager (allocated s) (conversation_extra conversation)
                        (conversation_id conversation)
           in (Some task,
               s\<lparr>taskList := taskList s @ [(conversation_id conversation, task)],
                 trace := trace s @ [New_task task],
                 allocated := Suc (allocated s)\<rparr>))
        else if conversation_type conversation = ''codex'' then
          (let task = CodexAgentManager (allocated s) (conversation_extra conversation)
                        (conversation_id conversation)
           in (Some task,
               s\<lparr>taskList := taskList s @ [(conversation_id conversation, task)],
                 trace := trace s @ [New_task task],
                 allocated := Suc (allocated s)\<rparr>))
        else (None, s))"

text \<open>
  \<open>getTaskByIdRollbackBuild\<close> is an \<open>async\<close> function with one \<open>await\<close>. It runs
  synchronously up to \<open>await ProcessChat.get('chat.history')\<close>, and the rest runs
  later, when the history has arrived. The two halves are modelled separately, so
  that other operations can be placed between them.

  The first half returns \<open>Some\<close> outcome when the promise is already settled and
  \<open>None\<close> when the function is suspended at the \<open>await\<close>. An outcome is \<open>Inl\<close> for a
  rejection and \<open>Inr\<close> for the resolved value (\<open>None\<close> being \<open>null\<close>).
  The database is the function \<open>db\<close>; \<open>list\<close> is what the history store returns
  (\<open>None\<close> for \<open>undefined\<close>).
\<close>

definition rollbackBuild_begin ::
  "(string \<Rightarrow> 'x db_result) \<Rightarrow> string \<Rightarrow> 'x registry
    \<Rightarrow> (exn + 'x task option) option \<times> 'x registry" where
  "rollbackBuild_begin db i s =
    (case map_option snd (find (\<lambda>item. fst item = i) (taskList s)) of
       Some task \<Rightarrow> (Some (Inr (Some task)), s)
     | None \<Rightarrow>
        (let dbResult = db i;
             s1 = s\<lparr>trace := trace s @ [Db_getConversation i]\<rparr>
         in case (if success dbResult then data dbResult else None) of
              Some c \<Rightarrow> (case buildConversation c s1 of (r, s2) \<Rightarrow> (Some (Inr r), s2))
            | None \<Rightarrow> (None, s1\<lparr>trace := trace s1 @ [ProcessChat_get ''chat.history'']\<rparr>)))"

definition rollbackBuild_resume ::
  "'x conversation list option \<Rightarrow> string \<Rightarrow> 'x registry
    \<Rightarrow> (exn + 'x task option) \<times> 'x registry" where
  "rollbackBuild_resume list i s =
    (case (case list of None \<Rightarrow> None
           | Some l \<Rightarrow> find (\<lambda>item. conversation_id item = i) l) of
       Some conversation \<Rightarrow>
         (case buildConversation conversation s of (r, s1) \<Rightarrow> (Inr r, s1))
     | None \<Rightarrow> (Inl (Error ''Conversation not found''), s))"

text \<open>The whole call, with nothing running between its two halves.\<close>

definition getTaskByIdRollbackBuild ::
  "(string \<Rightarrow> 'x db_result) \<Rightarrow> 'x conversation list option \<Rightarrow> string \<Rightarrow> 'x registry
    \<Rightarrow> (exn + 'x task option) \<times> 'x registry" where
  "getTaskByIdRollbackBuild db list i s =
    (case rollbackBuild_begin db i s of
       (Some r, s1) \<Rightarrow> (r, s1)
     | (None, s1) \<Rightarrow> rollbackBuild_resume list i s1)"

text \<open>\<open>findIndex\<close>, with \<open>None\<close> for \<open>-1\<close>.\<close>

fun findIndex :: "('a \<Rightarrow> bool) \<Rightarrow> 'a list \<Rightarrow> nat option" where
  "findIndex P [] = None"
| "findIndex P (x # xs) = (if P x then Some 0 else map_option Suc (findIndex P xs))"

text \<open>\<open>xs.splice(index, 1)\<close>.\<close>

definition splice1 :: "nat \<Rightarrow> 'a list \<Rightarrow> 'a list" where
  "splice1 index xs = take index xs @ drop (Suc index) xs"

text \<open>
  \<open>kill\<close>. The \<open>kill()\<close> method of a task is not part of the module: \<open>task_kill t\<close>
  is its outcome on the task \<open>t\<close>, \<open>None\<close> when it returns and \<open>Some e\<close> when
  it throws \<open>e\<close>. The module has no \<open>try\<close>, so an exception leaves \<open>kill\<close> at the
  call and \<open>splice\<close> is not reached.
\<close>

definition kill ::
  "('x task \<Rightarrow> exn option) \<Rightarrow> string \<Rightarrow> 'x registry \<Rightarrow> (exn + unit) \<times> 'x registry" where
  "kill task_kill i s =
    (case findIndex (\<lambda>item. fst item = i) (taskList s) of
       None \<Rightarrow> (Inr (), s)
     | Some index \<Rightarrow>
        (let task = snd (taskList s ! index);
             s1 = s\<lparr>trace := trace s @ [Task_kill task]\<rparr>
         in case task_kill task of
              Some e \<Rightarrow> (Inl e, s1)
            | None \<Rightarrow> (Inr (), s1\<lparr>taskList := splice1 index (taskList s)\<rparr>)))"

text \<open>The \<open>forEach\<close> of \<open>clear\<close>: the tasks are signalled in list order, and the
  first exception ends the loop. The result is the exception, if any, and the
  calls made.\<close>

fun kill_forEach ::
  "('x task \<Rightarrow> exn option) \<Rightarrow> (string \<times> 'x task) list \<Rightarrow> exn option \<times> 'x event list" where
  "kill_forEach task_kill [] = (None, [])"
| "kill_forEach task_kill (item # items) =
    (case task_kill (snd item) of
       Some e \<Rightarrow> (Some e, [Task_kill (snd item)])
     | None \<Rightarrow>
        (case kill_forEach task_kill items of
           (r, evs) \<Rightarrow> (r, Task_kill (snd item) # evs)))"

definition clear ::
  "('x task \<Rightarrow> exn option) \<Rightarrow> 'x registry \<Rightarrow> (exn + unit) \<times> 'x registry" where
  "clear task_kill s =
    (case kill_forEach task_kill (taskList s) of
       (Some e, evs) \<Rightarrow> (Inl e, s\<lparr>trace := trace s @ evs\<rparr>)
     | (None, evs) \<Rightarrow> (Inr (), s\<lparr>taskList := [], trace := trace s @ evs\<rparr>))"

text \<open>\<open>addTask\<close>: \<open>existing.task = task\<close> writes into the first entry with the id.\<close>

fun replace_task :: "string \<Rightarrow> 'x task \<Rightarrow> (string \<times> 'x task) list \<Rightarrow> (string \<times> 'x task) list" where
  "replace_task i task [] = []"
| "replace_task i task (item # items) =
    (if fst item = i then (fst item, task) # items else item # replace_task i task items)"

definition addTask :: "string \<Rightarrow> 'x task \<Rightarrow> 'x registry \<Rightarrow> 'x registry" where
  "addTask i task s =
    (case find (\<lambda>item. fst item = i) (taskList s) of
       Some existing \<Rightarrow> s\<lparr>taskList := replace_task i task (taskList s)\<rparr>
     | None \<Rightarrow> s\<lparr>taskList := taskList s @ [(i, task)]\<rparr>)"

subsection \<open>Sequences of operations\<close>

text \<open>One constructor per entry point of the module; the two halves of
  \<open>getTaskByIdRollbackBuild\<close> are also steps of their own, so that a sequence can
  interleave a suspended recovery with anything else. Every operation carries the
  answers of the outside world it meets.\<close>

datatype 'x op =
    Op_buildConversation "'x conversation"
  | Op_getTaskByIdRollbackBuild "string \<Rightarrow> 'x db_result" "'x conversation list option" string
  | Op_rollbackBuild_begin "string \<Rightarrow> 'x db_result" string
  | Op_rollbackBuild_resume "'x conversation list option" string
  | Op_addTask string "'x task"
  | Op_kill "'x task \<Rightarrow> exn option" string
  | Op_clear "'x task \<Rightarrow> exn option"

fun step :: "'x op \<Rightarrow> 'x registry \<Rightarrow> 'x registry" where
  "step (Op_buildConversation c) s = snd (buildConversation c s)"
| "step (Op_getTaskByIdRollbackBuild db list i) s = snd (getTaskByIdRollbackBuild db list i s)"
| "step (Op_rollbackBuild_begin db i) s = snd (rollbackBuild_begin db i s)"
| "step (Op_rollbackBuild_resume list i) s = snd (rollbackBuild_resume list i s)"
| "step (Op_addTask i task) s = addTask i task s"
| "step (Op_kill task_kill i) s = snd (kill task_kill i s)"
| "step (Op_clear task_kill) s = snd (clear task_kill s)"

fun run :: "'x op list \<Rightarrow> 'x registry \<Rightarrow> 'x registry" where
  "run [] s = s"
| "run (op # ops) s = run ops (step op s)"

subsection \<open>What the claims observe\<close>

text \<open>The ids in the list, the constructor calls in a trace that were made for a
  given conversation id, and the operations that take an entry away or put
  another task under its id.\<close>

definition ids :: "'x registry \<Rightarrow> string set" where
  "ids s = fst ` set (taskList s)"

definition task_conversation_id :: "'x task \<Rightarrow> string option" where
  "task_conversation_id t =
    (case t of AcpAgentManager n x i \<Rightarrow> Some i
     | CodexAgentManager n x i \<Rightarrow> Some i
     | ExternalTask n \<Rightarrow> None)"

fun is_construction :: "string \<Rightarrow> 'x event \<Rightarrow> bool" where
  "is_construction i (New_task t) = (task_conversation_id t = Some i)"
| "is_construction i _ = False"

definition constructions :: "string \<Rightarrow> 'x event list \<Rightarrow> nat" where
  "constructions i tr = length (filter (is_construction i) tr)"

text \<open>The reads of the history store in a trace.\<close>

fun is_history_read :: "'x event \<Rightarrow> bool" where
  "is_history_read (ProcessChat_get k) = True"
| "is_history_read _ = False"

definition history_reads :: "'x event list \<Rightarrow> nat" where
  "history_reads tr = length (filter is_history_read tr)"

text \<open>The cases of the \<open>switch\<close> that construct, and the object each constructs.\<close>

definition supported :: "string \<Rightarrow> bool" where
  "supported ty = (ty = ''acp'' \<or> ty = ''codex'')"

definition new_task :: "'x conversation \<Rightarrow> nat \<Rightarrow> 'x task" where
  "new_task c n =
    (if conversation_type c = ''acp''
     then AcpAgentManager n (conversation_extra c) (conversation_id c)
     else CodexAgentManager n (conversation_extra c) (conversation_id c))"

fun removes :: "string \<Rightarrow> 'x op \<Rightarrow> bool" where
  "removes i (Op_kill task_kill j) = (j = i)"
| "removes i (Op_clear task_kill) = True"
| "removes i _ = False"

fun replaces :: "string \<Rightarrow> 'x op \<Rightarrow> bool" where
  "replaces i (Op_addTask j task) = (j = i)"
| "replaces i _ = False"

definition built_once :: "string \<Rightarrow> 'x registry \<Rightarrow> bool" where
  "built_once i s = (constructions i (trace s) \<le> (if i \<in> ids s then 1 else 0))"

section \<open>The tool registry (ToolRegistry)\<close>

subsection \<open>Data\<close>

text \<open>The enumerations of \<open>../types\<close>, with the members the class names. The event
  types the class does not name are \<open>OTHER_EVENT\<close>.\<close>

datatype ToolCategory = EXECUTION | FILE_OPS | SEARCH | ANALYSIS | COMMUNICATION | CUSTOM

datatype OutputFormat = Format_TEXT | Format_MARKDOWN | Format_JSON

datatype RendererType = Renderer_STANDARD | Renderer_MARKDOWN | Renderer_CODE | Renderer_CHART

datatype CodexAgentEventType =
    EXEC_COMMAND_BEGIN | EXEC_COMMAND_OUTPUT_DELTA | EXEC_COMMAND_END
  | APPLY_PATCH_APPROVAL_REQUEST | PATCH_APPLY_BEGIN | PATCH_APPLY_END
  | WEB_SEARCH_BEGIN | WEB_SEARCH_END
  | MCP_TOOL_CALL_BEGIN | MCP_TOOL_CALL_END
  | OTHER_EVENT string

datatype config_value = Config_bool bool | Config_string string

record ToolAvailability =
  platforms :: "string list"
  experimental :: "bool option"

record ToolCapabilities =
  supportsStreaming :: bool
  supportsImages :: bool
  supportsCharts :: bool
  supportsMarkdown :: bool
  supportsInteraction :: bool
  outputFormats :: "OutputFormat list"

record ToolRenderer =
  renderer_type :: RendererType
  config :: "(string \<times> config_value) list"

text \<open>Of an input schema the class reads which names \<open>properties\<close> defines.\<close>

record InputSchema =
  properties :: "string list option"

record ToolDefinition =
  tool_id :: string
  name :: string
  displayNameKey :: string
  category :: ToolCategory
  priority :: int
  availability :: ToolAvailability
  capabilities :: ToolCapabilities
  renderer :: ToolRenderer
  icon :: string
  descriptionKey :: string
  schema :: "InputSchema option"

record McpToolInfo =
  serverName :: string
  info_name :: string
  description :: "string option"
  inputSchema :: "InputSchema option"

text \<open>An invocation: its \<open>method\<close> and \<open>name\<close> fields, \<open>None\<close> when the field is
  missing or is not a string.\<close>

record McpInvocation =
  inv_method :: "string option"
  inv_name :: "string option"

record EventData =
  invocation :: "McpInvocation option"

text \<open>The three \<open>Map\<close>s of the class. A JavaScript \<open>Map\<close> iterates in insertion
  order and \<open>set\<close> on a key that is present keeps its place: this is an
  association list with \<open>AList.update\<close> for \<open>set\<close> and \<open>map_of\<close> for \<open>get\<close>.\<close>

record ToolRegistry =
  tools :: "(string \<times> ToolDefinition) list"
  mcpTools :: "(string \<times> ToolDefinition) list"
  eventTypeMapping :: "(CodexAgentEventType \<times> string list) list"

subsection \<open>Strings\<close>

text \<open>
  A string is the list of the bytes of its UTF-8 encoding, so that the keywords
  and separators of the class, all ASCII, are found in it exactly where
  \<open>includes\<close> and \<open>endsWith\<close> find them. \<open>String.prototype.toLowerCase\<close> is the
  language's own, Unicode-aware function: it is not defined here but is the
  argument \<open>toLowerCase\<close> of every function that calls it, and what is proved holds
  for every such function.
\<close>

definition string_includes :: "string \<Rightarrow> string \<Rightarrow> bool" where
  "string_includes s sub = sublist sub s"

definition endsWith :: "string \<Rightarrow> string \<Rightarrow> bool" where
  "endsWith s suf = suffix suf s"

subsection \<open>Registration\<close>

definition all_platforms :: "string list" where
  "all_platforms = [''darwin'', ''linux'', ''win32'']"

definition shell_exec :: ToolDefinition where
  "shell_exec =
    \<lparr>tool_id = ''shell_exec'', name = ''Shell'',
     displayNameKey = ''tools.shell.displayName'',
     category = EXECUTION, priority = 10,
     availability = \<lparr>platforms = all_platforms, experimental = None\<rparr>,
     capabilities = \<lparr>supportsStreaming = True, supportsImages = False, supportsCharts = False,
       supportsMarkdown = True, supportsInteraction = True,
       outputFormats = [Format_TEXT, Format_MARKDOWN]\<rparr>,
     renderer = \<lparr>renderer_type = Renderer_STANDARD,
       config = [(''showTimestamp'', Config_bool True)]\<rparr>,
     icon = ''[x]'', descriptionKey = ''tools.shell.description'', schema = None\<rparr>"

definition agent_browser :: ToolDefinition where
  "agent_browser =
    \<lparr>tool_id = ''agent_browser'', name = ''AgentBrowser'',
     displayNameKey = ''tools.agentBrowser.displayName'',
     category = EXECUTION, priority = 15,
     availability = \<lparr>platforms = all_platforms, experimental = None\<rparr>,
     capabilities = \<lparr>supportsStreaming = False, supportsImages = False, supportsCharts = False,
       supportsMarkdown = True, supportsInteraction = False,
       outputFormats = [Format_TEXT, Format_MARKDOWN]\<rparr>,
     renderer = \<lparr>renderer_type = Renderer_STANDARD,
       config = [(''showTimestamp'', Config_bool True)]\<rparr>,
     icon = ''[*]'', descriptionKey = ''tools.agentBrowser.description'', schema = None\<rparr>"

definition file_operations :: ToolDefinition where
  "file_operations =
    \<lparr>tool_id = ''file_operations'', name = ''FileOps'',
     displayNameKey = ''tools.fileOps.displayName'',
     category = FILE_OPS, priority = 20,
     availability = \<lparr>platforms = all_platforms, experimental = None\<rparr>,
     capabilities = \<lparr>supportsStreaming = False, supportsImages = False, supportsCharts = False,
       supportsMarkdown = True, supportsInteraction = True,
       outputFormats = [Format_TEXT, Format_MARKDOWN]\<rparr>,
     renderer = \<lparr>renderer_type = Renderer_CODE,
       config = [(''language'', Config_string ''diff'')]\<rparr>,
     icon = ''[~]'', descriptionKey = ''tools.fileOps.description'', schema = None\<rparr>"

definition web_search :: ToolDefinition where
  "web_search =
    \<lparr>tool_id = ''web_search'', name = ''WebSearch'',
     displayNameKey = ''tools.webSearch.displayName'',
     category = SEARCH, priority = 30,
     availability = \<lparr>platforms = all_platforms, experimental = None\<rparr>,
     capabilities = \<lparr>supportsStreaming = False, supportsImages = True, supportsCharts = False,
       supportsMarkdown = True, supportsInteraction = False,
       outputFormats = [Format_TEXT, Format_MARKDOWN]\<rparr>,
     renderer = \<lparr>renderer_type = Renderer_MARKDOWN,
       config = [(''showSources'', Config_bool True)]\<rparr>,
     icon = ''[?]'', descriptionKey = ''tools.webSearch.description'', schema = None\<rparr>"

definition registerBuiltinTool :: "ToolDefinition \<Rightarrow> ToolRegistry \<Rightarrow> ToolRegistry" where
  "registerBuiltinTool tool r = r\<lparr>tools := AList.update (tool_id tool) tool (tools r)\<rparr>"

definition eventTypeMapping_set ::
  "CodexAgentEventType \<Rightarrow> string list \<Rightarrow> ToolRegistry \<Rightarrow> ToolRegistry" where
  "eventTypeMapping_set e candidates r =
    r\<lparr>eventTypeMapping := AList.update e candidates (eventTypeMapping r)\<rparr>"

text \<open>\<open>initializeBuiltinTools\<close>: the calls of the method body, applied in its order.\<close>

definition initializeBuiltinTools :: "ToolRegistry \<Rightarrow> ToolRegistry" where
  "initializeBuiltinTools r =
    fold (\<lambda>call. call)
      [registerBuiltinTool shell_exec,
       registerBuiltinTool agent_browser,
       registerBuiltinTool file_operations,
       registerBuiltinTool web_search,
       eventTypeMapping_set EXEC_COMMAND_BEGIN [''shell_exec''],
       eventTypeMapping_set EXEC_COMMAND_OUTPUT_DELTA [''shell_exec''],
       eventTypeMapping_set EXEC_COMMAND_END [''shell_exec''],
       eventTypeMapping_set APPLY_PATCH_APPROVAL_REQUEST [''file_operations''],
       eventTypeMapping_set PATCH_APPLY_BEGIN [''file_operations''],
       eventTypeMapping_set PATCH_APPLY_END [''file_operations''],
       eventTypeMapping_set WEB_SEARCH_BEGIN [''web_search''],
       eventTypeMapping_set WEB_SEARCH_END [''web_search'']]
      r"

text \<open>The constructor: three empty maps, then \<open>initializeBuiltinTools\<close>.\<close>

definition new_ToolRegistry :: ToolRegistry where
  "new_ToolRegistry =
    initializeBuiltinTools \<lparr>tools = [], mcpTools = [], eventTypeMapping = []\<rparr>"

definition inferCategory :: "(string \<Rightarrow> string) \<Rightarrow> McpToolInfo \<Rightarrow> ToolCategory" where
  "inferCategory toLowerCase mcpTool =
    (let name = toLowerCase (info_name mcpTool);
         description = (case description mcpTool of None \<Rightarrow> [] | Some d \<Rightarrow> toLowerCase d)
     in if string_includes name ''search'' \<or> string_includes name ''find'' \<or> string_includes name ''query''
           \<or> string_includes description ''search'' then SEARCH
        else if string_includes name ''file'' \<or> string_includes name ''read'' \<or> string_includes name ''write''
           \<or> string_includes name ''edit'' then FILE_OPS
        else if string_includes name ''exec'' \<or> string_includes name ''run'' \<or> string_includes name ''command''
           \<or> string_includes name ''shell'' then EXECUTION
        else if string_includes name ''chart'' \<or> string_includes name ''plot'' \<or> string_includes name ''analyze''
           \<or> string_includes name ''graph'' then ANALYSIS
        else if string_includes name ''http'' \<or> string_includes name ''api'' \<or> string_includes name ''request''
           \<or> string_includes name ''fetch'' then COMMUNICATION
        else CUSTOM)"

definition has_property :: "InputSchema option \<Rightarrow> string \<Rightarrow> bool" where
  "has_property sch p =
    (case sch of
       None \<Rightarrow> False
     | Some obj \<Rightarrow> (case properties obj of None \<Rightarrow> False | Some ps \<Rightarrow> p \<in> set ps))"

definition inferCapabilities :: "InputSchema option \<Rightarrow> ToolCapabilities" where
  "inferCapabilities sch =
    (let hasStreamParam = has_property sch ''stream'';
         hasImageParam = (has_property sch ''image'' \<or> has_property sch ''img'')
     in \<lparr>supportsStreaming = hasStreamParam, supportsImages = hasImageParam,
         supportsCharts = False, supportsMarkdown = True, supportsInteraction = True,
         outputFormats = [Format_TEXT, Format_MARKDOWN]\<rparr>)"

definition selectRenderer :: "(string \<Rightarrow> string) \<Rightarrow> McpToolInfo \<Rightarrow> ToolRenderer" where
  "selectRenderer toLowerCase mcpTool =
    (case inferCategory toLowerCase mcpTool of
       FILE_OPS \<Rightarrow> \<lparr>renderer_type = Renderer_CODE, config = []\<rparr>
     | ANALYSIS \<Rightarrow> \<lparr>renderer_type = Renderer_CHART, config = []\<rparr>
     | SEARCH \<Rightarrow> \<lparr>renderer_type = Renderer_MARKDOWN, config = []\<rparr>
     | _ \<Rightarrow> \<lparr>renderer_type = Renderer_STANDARD, config = []\<rparr>)"

definition getIconForCategory :: "ToolCategory \<Rightarrow> string" where
  "getIconForCategory c =
    (case c of
       EXECUTION \<Rightarrow> ''[x]''
     | FILE_OPS \<Rightarrow> ''[~]''
     | SEARCH \<Rightarrow> ''[?]''
     | ANALYSIS \<Rightarrow> ''[#]''
     | COMMUNICATION \<Rightarrow> ''[*]''
     | CUSTOM \<Rightarrow> ''[+]'')"

definition adaptMcpTool :: "(string \<Rightarrow> string) \<Rightarrow> McpToolInfo \<Rightarrow> ToolDefinition" where
  "adaptMcpTool toLowerCase mcpTool =
    (let fullyQualifiedName = serverName mcpTool @ ''/'' @ info_name mcpTool
     in \<lparr>tool_id = fullyQualifiedName,
         name = info_name mcpTool,
         displayNameKey =
           ''tools.mcp.'' @ serverName mcpTool @ ''.'' @ info_name mcpTool @ ''.displayName'',
         category = inferCategory toLowerCase mcpTool,
         priority = 100,
         availability = \<lparr>platforms = all_platforms, experimental = Some True\<rparr>,
         capabilities = inferCapabilities (inputSchema mcpTool),
         renderer = selectRenderer toLowerCase mcpTool,
         icon = getIconForCategory (inferCategory toLowerCase mcpTool),
         descriptionKey =
           ''tools.mcp.'' @ serverName mcpTool @ ''.'' @ info_name mcpTool @ ''.description'',
         schema = inputSchema mcpTool\<rparr>)"

definition registerMcpTool ::
  "(string \<Rightarrow> string) \<Rightarrow> McpToolInfo \<Rightarrow> ToolRegistry \<Rightarrow> ToolRegistry" where
  "registerMcpTool toLowerCase mcpTool r =
    (let toolDef = adaptMcpTool toLowerCase mcpTool
     in r\<lparr>mcpTools := AList.update (tool_id toolDef) toolDef (mcpTools r)\<rparr>)"

subsection \<open>Resolution\<close>

definition extractMethodFromInvocation :: "McpInvocation \<Rightarrow> string" where
  "extractMethodFromInvocation invoc =
    (case inv_method invoc of
       Some m \<Rightarrow> m
     | None \<Rightarrow> (case inv_name invoc of Some n \<Rightarrow> n | None \<Rightarrow> []))"

text \<open>\<open>inferMcpToolId\<close>: an empty method is no method; otherwise the first entry of
  \<open>mcpTools\<close>, in insertion order, whose key ends with \<open>/method\<close> or whose name is
  the method.\<close>

definition inferMcpToolId :: "ToolRegistry \<Rightarrow> McpInvocation \<Rightarrow> string" where
  "inferMcpToolId r invoc =
    (let method = extractMethodFromInvocation invoc
     in if method = [] then []
        else (case find (\<lambda>entry. endsWith (fst entry) (''/'' @ method) \<or> name (snd entry) = method)
                     (mcpTools r) of
                Some entry \<Rightarrow> fst entry
              | None \<Rightarrow> []))"

definition createGenericMcpTool :: "McpInvocation option \<Rightarrow> ToolDefinition" where
  "createGenericMcpTool invoc =
    (let method =
       (case invoc of
          Some i \<Rightarrow> (if extractMethodFromInvocation i = [] then ''McpTool''
                     else extractMethodFromInvocation i)
        | None \<Rightarrow> ''McpTool'')
     in \<lparr>tool_id = ''generic_mcp_'' @ method,
         name = method,
         displayNameKey = ''tools.mcp.generic.displayName'',
         category = CUSTOM,
         priority = 200,
         availability = \<lparr>platforms = all_platforms, experimental = Some True\<rparr>,
         capabilities = \<lparr>supportsStreaming = False, supportsImages = True, supportsCharts = True,
           supportsMarkdown = True, supportsInteraction = False,
           outputFormats = [Format_TEXT, Format_MARKDOWN, Format_JSON]\<rparr>,
         renderer = \<lparr>renderer_type = Renderer_STANDARD, config = []\<rparr>,
         icon = ''[+]'',
         descriptionKey = ''tools.mcp.generic.description'',
         schema = None\<rparr>)"

text \<open>\<open>process.platform\<close> is the argument \<open>currentPlatform\<close>.\<close>

definition isToolAvailable :: "string \<Rightarrow> ToolDefinition \<Rightarrow> bool" where
  "isToolAvailable currentPlatform tool = (currentPlatform \<in> set (platforms (availability tool)))"

definition getDefaultTool :: "CodexAgentEventType \<Rightarrow> ToolDefinition" where
  "getDefaultTool eventType =
    \<lparr>tool_id = ''unknown'', name = ''Unknown'',
     displayNameKey = ''tools.unknown.displayName'',
     category = CUSTOM, priority = 999,
     availability = \<lparr>platforms = all_platforms, experimental = None\<rparr>,
     capabilities = \<lparr>supportsStreaming = False, supportsImages = False, supportsCharts = False,
       supportsMarkdown = False, supportsInteraction = False,
       outputFormats = [Format_TEXT]\<rparr>,
     renderer = \<lparr>renderer_type = Renderer_STANDARD, config = []\<rparr>,
     icon = ''[.]'', descriptionKey = ''tools.unknown.description'', schema = None\<rparr>"

text \<open>\<open>this.tools.get(id) || this.mcpTools.get(id)\<close>.\<close>

definition getTool :: "ToolRegistry \<Rightarrow> string \<Rightarrow> ToolDefinition option" where
  "getTool r i = (case map_of (tools r) i of Some t \<Rightarrow> Some t | None \<Rightarrow> map_of (mcpTools r) i)"

text \<open>The candidates of an event type that are registered and available on the
  platform, in the order of the table: the array before \<open>sort\<close>.\<close>

definition candidateIds :: "ToolRegistry \<Rightarrow> CodexAgentEventType \<Rightarrow> string list" where
  "candidateIds r eventType =
    (case map_of (eventTypeMapping r) eventType of Some l \<Rightarrow> l | None \<Rightarrow> [])"

definition survivors :: "string \<Rightarrow> ToolRegistry \<Rightarrow> CodexAgentEventType \<Rightarrow> ToolDefinition list" where
  "survivors currentPlatform r eventType =
    filter (isToolAvailable currentPlatform)
      (List.map_filter (getTool r) (candidateIds r eventType))"

text \<open>\<open>resolveToolForEvent\<close>. \<open>Array.prototype.sort\<close> is stable, as \<open>sort_key\<close> is; the
  priorities are integers.\<close>

definition resolveToolForEvent ::
  "string \<Rightarrow> ToolRegistry \<Rightarrow> CodexAgentEventType \<Rightarrow> EventData option \<Rightarrow> ToolDefinition" where
  "resolveToolForEvent currentPlatform r eventType eventData =
    (if eventType = MCP_TOOL_CALL_BEGIN \<or> eventType = MCP_TOOL_CALL_END then
       (let invoc = (case eventData of None \<Rightarrow> None | Some mcpData \<Rightarrow> invocation mcpData)
        in case (case invoc of
                   None \<Rightarrow> None
                 | Some i \<Rightarrow> map_of (mcpTools r) (inferMcpToolId r i)) of
             Some mcpTool \<Rightarrow> mcpTool
           | None \<Rightarrow> createGenericMcpTool invoc)
     else
       (let availableTools = sort_key priority (survivors currentPlatform r eventType)
        in case availableTools of
             tool # rest \<Rightarrow> tool
           | [] \<Rightarrow> getDefaultTool eventType))"




subsection \<open>What the claims observe\<close>

text \<open>An event of the two MCP tool-call types; an entry of \<open>mcpTools\<close> that the
  method \<open>m\<close> selects; what \<open>registerMcpTool\<close> keeps true of every entry; and the
  tests of \<open>inferCategory\<close> on the lower-cased name and description.\<close>

definition name_has :: "(string \<Rightarrow> string) \<Rightarrow> McpToolInfo \<Rightarrow> string list \<Rightarrow> bool" where
  "name_has toLowerCase mcpTool words =
    list_ex (string_includes (toLowerCase (info_name mcpTool))) words"

definition description_has :: "(string \<Rightarrow> string) \<Rightarrow> McpToolInfo \<Rightarrow> string \<Rightarrow> bool" where
  "description_has toLowerCase mcpTool word =
    (case description mcpTool of
       None \<Rightarrow> False
     | Some d \<Rightarrow> string_includes (toLowerCase d) word)"

definition search_rule :: "(string \<Rightarrow> string) \<Rightarrow> McpToolInfo \<Rightarrow> bool" where
  "search_rule toLowerCase mcpTool =
    (name_has toLowerCase mcpTool [''search'', ''find'', ''query'']
     \<or> description_has toLowerCase mcpTool ''search'')"




definition mcp_event :: "CodexAgentEventType \<Rightarrow> bool" where
  "mcp_event e = (e = MCP_TOOL_CALL_BEGIN \<or> e = MCP_TOOL_CALL_END)"

section \<open>Concrete inputs\<close>

text \<open>The conversations, stores, tasks and operation sequences at which the
  theorems below are instantiated. All their strings are ASCII, where
  \<open>toLowerCase\<close> is the function \<open>ascii_toLowerCase\<close>: A to Z go to a to z and
  every other character is kept.\<close>

definition lower_char :: "char \<Rightarrow> char" where
  "lower_char c =
    (case map_of (zip ''ABCDEFGHIJKLMNOPQRSTUVWXYZ'' ''abcdefghijklmnopqrstuvwxyz'') c of
       Some d \<Rightarrow> d
     | None \<Rightarrow> c)"

definition ascii_toLowerCase :: "string \<Rightarrow> string" where
  "ascii_toLowerCase s = map lower_char s"

definition conv_y :: "unit conversation" where
  "conv_y = \<lparr>conversation_id = ''y'', conversation_type = ''acp'', conversation_extra = ()\<rparr>"

definition conv_y_codex :: "unit conversation" where
  "conv_y_codex = \<lparr>conversation_id = ''y'', conversation_type = ''codex'', conversation_extra = ()\<rparr>"

definition conv_w :: "unit conversation" where
  "conv_w = \<lparr>conversation_id = ''w'', conversation_type = ''codex'', conversation_extra = ()\<rparr>"

definition conv_gemini :: "unit conversation" where
  "conv_gemini = \<lparr>conversation_id = ''g'', conversation_type = ''gemini'', conversation_extra = ()\<rparr>"

definition db_none :: "string \<Rightarrow> unit db_result" where
  "db_none i = \<lparr>success = False, data = None\<rparr>"

definition db_only :: "unit conversation \<Rightarrow> string \<Rightarrow> unit db_result" where
  "db_only c i =
    (if i = conversation_id c then \<lparr>success = True, data = Some c\<rparr>
     else \<lparr>success = False, data = None\<rparr>)"

definition task_kill_ok :: "unit task \<Rightarrow> exn option" where
  "task_kill_ok t = None"

definition task_kill_fails :: "unit task \<Rightarrow> exn option" where
  "task_kill_fails t = Some (Error ''kill failed'')"

definition registry_y :: "unit registry" where
  "registry_y = run [Op_addTask ''y'' (ExternalTask 7)] empty_registry"

definition busy_ops :: "unit op list" where
  "busy_ops =
    [Op_buildConversation conv_w, Op_kill task_kill_fails ''w'', Op_kill task_kill_ok ''w'',
     Op_addTask ''v'' (ExternalTask 3), Op_getTaskByIdRollbackBuild db_none None ''y'']"

definition race_ops :: "unit op list" where
  "race_ops =
    [Op_rollbackBuild_begin db_none ''y'', Op_rollbackBuild_begin db_none ''y'',
     Op_rollbackBuild_resume (Some [conv_y]) ''y'', Op_rollbackBuild_resume (Some [conv_y]) ''y'']"

definition docs_search_info :: McpToolInfo where
  "docs_search_info = \<lparr>serverName = ''docs'', info_name = ''search_docs'',
     description = None, inputSchema = None\<rparr>"

definition empty_name_info :: McpToolInfo where
  "empty_name_info = \<lparr>serverName = ''docs'', info_name = [],
     description = None, inputSchema = None\<rparr>"

definition lookup_info :: McpToolInfo where
  "lookup_info = \<lparr>serverName = ''docs'', info_name = ''lookup'',
     description = Some ''find a page'', inputSchema = None\<rparr>"

definition plot_info :: McpToolInfo where
  "plot_info = \<lparr>serverName = ''viz'', info_name = ''Plot_Series'',
     description = Some ''Draws a series'', inputSchema = None\<rparr>"

definition read_file_info :: McpToolInfo where
  "read_file_info = \<lparr>serverName = ''fs'', info_name = ''read_file'',
     description = None, inputSchema = None\<rparr>"

definition run_command_info :: McpToolInfo where
  "run_command_info = \<lparr>serverName = ''sh'', info_name = ''run_command'',
     description = None, inputSchema = None\<rparr>"

definition http_fetch_info :: McpToolInfo where
  "http_fetch_info = \<lparr>serverName = ''net'', info_name = ''http_fetch'',
     description = None, inputSchema = None\<rparr>"


definition two_candidates :: ToolRegistry where
  "two_candidates =
    eventTypeMapping_set EXEC_COMMAND_BEGIN [''file_operations'', ''shell_exec''] new_ToolRegistry"


definition method_event :: "string \<Rightarrow> EventData option" where
  "method_event m = Some \<lparr>invocation = Some \<lparr>inv_method = Some m, inv_name = None\<rparr>\<rparr>"

section \<open>Properties of the worker registry\<close>

lemma getTaskById_None_iff: "getTaskById s i = None \<longleftrightarrow> i \<notin> fst ` set (taskList s)"
  by (auto simp: getTaskById_def find_None_iff image_iff)

lemma buildConversation_hit:
  "getTaskById s (conversation_id c) = Some t \<Longrightarrow> buildConversation c s = (Some t, s)"
  by (simp add: buildConversation_def)

lemma buildConversation_new:
  "getTaskById s (conversation_id c) = None \<Longrightarrow> supported (conversation_type c) \<Longrightarrow>
   buildConversation c s =
     (Some (new_task c (allocated s)),
      s\<lparr>taskList := taskList s @ [(conversation_id c, new_task c (allocated s))],
        trace := trace s @ [New_task (new_task c (allocated s))],
        allocated := Suc (allocated s)\<rparr>)"
  by (auto simp: buildConversation_def supported_def new_task_def Let_def)

lemma buildConversation_unsupported:
  "getTaskById s (conversation_id c) = None \<Longrightarrow> \<not> supported (conversation_type c) \<Longrightarrow>
   buildConversation c s = (None, s)"
  by (auto simp: buildConversation_def supported_def)

lemma new_task_conversation_id [simp]:
  "task_conversation_id (new_task c n) = Some (conversation_id c)"
  by (simp add: new_task_def task_conversation_id_def)

lemma constructions_append [simp]:
  "constructions i (xs @ ys) = constructions i xs + constructions i ys"
  by (simp add: constructions_def)

lemma findIndex_None_iff: "findIndex P xs = None \<longleftrightarrow> \<not> (\<exists>x \<in> set xs. P x)"
  by (induction xs) auto

lemma findIndex_Some:
  "findIndex P xs = Some k \<Longrightarrow> k < length xs \<and> P (xs ! k) \<and> find P xs = Some (xs ! k)"
  by (induction xs arbitrary: k) (auto split: if_splits)

lemma findIndex_find: "map_option (\<lambda>k. xs ! k) (findIndex P xs) = find P xs"
  by (induction xs) (auto simp: option.map_comp comp_def)

lemma splice1_fst_distinct:
  "distinct (map fst xs) \<Longrightarrow> k < length xs \<Longrightarrow>
    distinct (map fst (splice1 k xs)) \<and> fst (xs ! k) \<notin> fst ` set (splice1 k xs)
    \<and> fst ` set (splice1 k xs) = fst ` set xs - {fst (xs ! k)}"
proof (induction xs arbitrary: k)
  case Nil
  then show ?case by simp
next
  case (Cons x xs)
  show ?case
  proof (cases k)
    case 0
    with Cons.prems show ?thesis by (auto simp: splice1_def)
  next
    case (Suc j)
    with Cons.prems have j: "j < length xs" and d: "distinct (map fst xs)"
      and nx: "fst x \<notin> fst ` set xs" by auto
    from Cons.IH[OF d j] have ih: "distinct (map fst (splice1 j xs))"
      "fst (xs ! j) \<notin> fst ` set (splice1 j xs)"
      "fst ` set (splice1 j xs) = fst ` set xs - {fst (xs ! j)}" by auto
    have eq: "splice1 k (x # xs) = x # splice1 j xs" using Suc by (simp add: splice1_def)
    have "fst (xs ! j) \<in> fst ` set xs" using nth_mem[OF j] by (rule imageI)
    with nx have ne: "fst x \<noteq> fst (xs ! j)" by metis
    have nth: "(x # xs) ! k = xs ! j" using Suc by simp
    have a: "distinct (map fst (x # splice1 j xs))" using ih nx by auto
    have b: "fst (xs ! j) \<notin> fst ` set (x # splice1 j xs)" using ih(2) ne by auto
    have c: "fst ` set (x # splice1 j xs) = fst ` set (x # xs) - {fst (xs ! j)}"
      using ih(3) ne by auto
    show ?thesis unfolding eq nth using a b c by blast
  qed
qed

lemma replace_task_fst [simp]: "map fst (replace_task i t xs) = map fst xs"
  by (induction xs) auto

lemma replace_task_length [simp]: "length (replace_task i t xs) = length xs"
  by (induction xs) auto

lemma getTaskById_None_ids: "getTaskById s i = None \<longleftrightarrow> i \<notin> ids s"
  by (simp add: getTaskById_None_iff ids_def)

lemma getTaskById_trace [simp]: "getTaskById (s\<lparr>trace := tr\<rparr>) i = getTaskById s i"
  by (simp add: getTaskById_def)

lemma ids_trace [simp]: "ids (s\<lparr>trace := tr\<rparr>) = ids s"
  by (simp add: ids_def)

lemma buildConversation_state:
  "snd (buildConversation c s) =
    (if conversation_id c \<notin> ids s \<and> supported (conversation_type c)
     then s\<lparr>taskList := taskList s @ [(conversation_id c, new_task c (allocated s))],
            trace := trace s @ [New_task (new_task c (allocated s))],
            allocated := Suc (allocated s)\<rparr>
     else s)"
proof (cases "getTaskById s (conversation_id c)")
  case None
  then show ?thesis
    by (cases "supported (conversation_type c)")
       (simp_all add: buildConversation_new buildConversation_unsupported
          getTaskById_None_ids [symmetric])
next
  case (Some t)
  then have "conversation_id c \<in> ids s"
    using getTaskById_None_ids [of s "conversation_id c"] by simp
  with Some show ?thesis by (simp add: buildConversation_hit)
qed

lemma buildConversation_distinct:
  "distinct (map fst (taskList s)) \<Longrightarrow> distinct (map fst (taskList (snd (buildConversation c s))))"
  by (simp add: buildConversation_state ids_def)

lemma buildConversation_ids:
  "ids s \<subseteq> ids (snd (buildConversation c s))"
  by (auto simp: buildConversation_state ids_def)

lemma buildConversation_constructions_present:
  "i \<in> ids s \<Longrightarrow>
   constructions i (trace (snd (buildConversation c s))) = constructions i (trace s)"
  by (auto simp: buildConversation_state constructions_def)

lemma buildConversation_constructions_absent:
  "i \<notin> ids s \<Longrightarrow>
   (i \<in> ids (snd (buildConversation c s)) \<and>
      constructions i (trace (snd (buildConversation c s))) = Suc (constructions i (trace s)))
   \<or> (i \<notin> ids (snd (buildConversation c s)) \<and>
      constructions i (trace (snd (buildConversation c s))) = constructions i (trace s))"
  by (auto simp: buildConversation_state constructions_def ids_def)

lemma rollbackBuild_begin_alt:
  "rollbackBuild_begin db i s =
    (case getTaskById s i of
       Some task \<Rightarrow> (Some (Inr (Some task)), s)
     | None \<Rightarrow>
        (let dbResult = db i;
             s1 = s\<lparr>trace := trace s @ [Db_getConversation i]\<rparr>
         in case (if success dbResult then data dbResult else None) of
              Some c \<Rightarrow> (case buildConversation c s1 of (r, s2) \<Rightarrow> (Some (Inr r), s2))
            | None \<Rightarrow> (None, s1\<lparr>trace := trace s1 @ [ProcessChat_get ''chat.history'']\<rparr>)))"
  by (simp only: rollbackBuild_begin_def getTaskById_def)

lemma rollbackBuild_begin_memory:
  "getTaskById s i = Some t \<Longrightarrow> rollbackBuild_begin db i s = (Some (Inr (Some t)), s)"
  by (simp add: rollbackBuild_begin_alt)

lemma rollbackBuild_begin_db:
  "getTaskById s i = None \<Longrightarrow> success (db i) \<Longrightarrow> data (db i) = Some c \<Longrightarrow>
   rollbackBuild_begin db i s =
     (Some (Inr (fst (buildConversation c (s\<lparr>trace := trace s @ [Db_getConversation i]\<rparr>)))),
      snd (buildConversation c (s\<lparr>trace := trace s @ [Db_getConversation i]\<rparr>)))"
  by (simp add: rollbackBuild_begin_alt Let_def split: prod.splits)

lemma rollbackBuild_begin_await:
  "getTaskById s i = None \<Longrightarrow> \<not> success (db i) \<or> data (db i) = None \<Longrightarrow>
   rollbackBuild_begin db i s =
     (None, s\<lparr>trace := trace s @ [Db_getConversation i, ProcessChat_get ''chat.history'']\<rparr>)"
  by (auto simp: rollbackBuild_begin_alt Let_def)

lemma rollbackBuild_resume_found:
  "list = Some l \<Longrightarrow> find (\<lambda>item. conversation_id item = i) l = Some c \<Longrightarrow>
   rollbackBuild_resume list i s = (Inr (fst (buildConversation c s)), snd (buildConversation c s))"
  by (simp add: rollbackBuild_resume_def split: prod.splits)

lemma rollbackBuild_resume_missing:
  "list = None \<or> (\<exists>l. list = Some l \<and> find (\<lambda>item. conversation_id item = i) l = None) \<Longrightarrow>
   rollbackBuild_resume list i s = (Inl (Error ''Conversation not found''), s)"
  by (auto simp: rollbackBuild_resume_def)

lemma rollbackBuild_begin_state:
  "snd (rollbackBuild_begin db i s) = s
   \<or> (\<exists>c. snd (rollbackBuild_begin db i s) =
          snd (buildConversation c (s\<lparr>trace := trace s @ [Db_getConversation i]\<rparr>)))
   \<or> snd (rollbackBuild_begin db i s) =
        s\<lparr>trace := trace s @ [Db_getConversation i, ProcessChat_get ''chat.history'']\<rparr>"
proof (cases "getTaskById s i")
  case (Some t)
  then show ?thesis by (simp add: rollbackBuild_begin_memory)
next
  case None
  show ?thesis
  proof (cases "success (db i) \<and> data (db i) \<noteq> None")
    case True
    then obtain c where "data (db i) = Some c" by auto
    with None True have "snd (rollbackBuild_begin db i s) =
          snd (buildConversation c (s\<lparr>trace := trace s @ [Db_getConversation i]\<rparr>))"
      by (simp add: rollbackBuild_begin_db)
    then show ?thesis by blast
  next
    case False
    then have "\<not> success (db i) \<or> data (db i) = None" by blast
    with None show ?thesis by (simp add: rollbackBuild_begin_await)
  qed
qed

lemma rollbackBuild_resume_state:
  "snd (rollbackBuild_resume list i s) = s
   \<or> (\<exists>c. snd (rollbackBuild_resume list i s) = snd (buildConversation c s))"
proof (cases "case list of None \<Rightarrow> None | Some l \<Rightarrow> find (\<lambda>item. conversation_id item = i) l")
  case None
  then show ?thesis by (simp add: rollbackBuild_resume_def)
next
  case (Some c)
  then have "snd (rollbackBuild_resume list i s) = snd (buildConversation c s)"
    by (simp add: rollbackBuild_resume_def split: prod.splits)
  then show ?thesis by blast
qed

lemma kill_absent:
  "getTaskById s i = None \<Longrightarrow> kill task_kill i s = (Inr (), s)"
proof -
  assume "getTaskById s i = None"
  then have "findIndex (\<lambda>item. fst item = i) (taskList s) = None"
    by (auto simp: getTaskById_None_iff findIndex_None_iff)
  then show ?thesis by (simp add: kill_def)
qed

lemma kill_throws:
  "findIndex (\<lambda>item. fst item = i) (taskList s) = Some k \<Longrightarrow>
   task_kill (snd (taskList s ! k)) = Some e \<Longrightarrow>
   kill task_kill i s = (Inl e, s\<lparr>trace := trace s @ [Task_kill (snd (taskList s ! k))]\<rparr>)"
  by (simp add: kill_def Let_def)

lemma kill_returns:
  "findIndex (\<lambda>item. fst item = i) (taskList s) = Some k \<Longrightarrow>
   task_kill (snd (taskList s ! k)) = None \<Longrightarrow>
   kill task_kill i s =
     (Inr (), s\<lparr>trace := trace s @ [Task_kill (snd (taskList s ! k))],
               taskList := splice1 k (taskList s)\<rparr>)"
  by (simp add: kill_def Let_def)

lemma getTaskById_findIndex:
  "getTaskById s i = Some t \<Longrightarrow>
   \<exists>k. findIndex (\<lambda>item. fst item = i) (taskList s) = Some k \<and> k < length (taskList s)
     \<and> taskList s ! k = (i, t)"
proof -
  assume a: "getTaskById s i = Some t"
  then obtain item where f: "find (\<lambda>item. fst item = i) (taskList s) = Some item" and "snd item = t"
    by (auto simp: getTaskById_def)
  moreover from f have "fst item = i" by (auto simp: find_Some_iff)
  ultimately have item: "item = (i, t)" by auto
  from f obtain k where k: "findIndex (\<lambda>item. fst item = i) (taskList s) = Some k"
    using findIndex_find [of "taskList s" "\<lambda>item. fst item = i"] by (cases "findIndex (\<lambda>item. fst item = i) (taskList s)") auto
  from findIndex_Some [OF k] f item show ?thesis using k by auto
qed

lemma kill_forEach_returns:
  "list_all (\<lambda>item. task_kill (snd item) = None) items \<Longrightarrow>
   kill_forEach task_kill items = (None, map (\<lambda>item. Task_kill (snd item)) items)"
  by (induction items) auto

lemma kill_forEach_throws:
  "\<not> list_all (\<lambda>item. task_kill (snd item) = None) items \<Longrightarrow>
   \<exists>e evs. kill_forEach task_kill items = (Some e, evs)"
  by (induction items) (auto split: option.splits prod.splits)

lemma kill_forEach_constructions [simp]:
  "constructions i (snd (kill_forEach task_kill items)) = 0"
  by (induction items) (auto simp: constructions_def split: option.splits prod.splits)

lemma clear_returns:
  "list_all (\<lambda>item. task_kill (snd item) = None) (taskList s) \<Longrightarrow>
   clear task_kill s =
     (Inr (), s\<lparr>taskList := [],
               trace := trace s @ map (\<lambda>item. Task_kill (snd item)) (taskList s)\<rparr>)"
  by (simp add: clear_def kill_forEach_returns)

lemma clear_throws:
  "\<not> list_all (\<lambda>item. task_kill (snd item) = None) (taskList s) \<Longrightarrow>
   \<exists>e. fst (clear task_kill s) = Inl e \<and> taskList (snd (clear task_kill s)) = taskList s"
proof -
  assume "\<not> list_all (\<lambda>item. task_kill (snd item) = None) (taskList s)"
  from kill_forEach_throws [OF this] obtain e evs
    where "kill_forEach task_kill (taskList s) = (Some e, evs)" by blast
  then show ?thesis by (simp add: clear_def)
qed

lemma clear_state:
  "snd (clear task_kill s) =
     s\<lparr>taskList := (if fst (kill_forEach task_kill (taskList s)) = None then [] else taskList s),
       trace := trace s @ snd (kill_forEach task_kill (taskList s))\<rparr>"
  by (cases "kill_forEach task_kill (taskList s)")
     (auto simp: clear_def split: option.splits)

lemma kill_state:
  "snd (kill task_kill i s) = s
   \<or> (\<exists>k t. findIndex (\<lambda>item. fst item = i) (taskList s) = Some k \<and>
        (snd (kill task_kill i s) = s\<lparr>trace := trace s @ [Task_kill t]\<rparr>
         \<or> snd (kill task_kill i s) =
             s\<lparr>trace := trace s @ [Task_kill t], taskList := splice1 k (taskList s)\<rparr>))"
proof (cases "findIndex (\<lambda>item. fst item = i) (taskList s)")
  case None
  then show ?thesis by (simp add: kill_def)
next
  case (Some k)
  then show ?thesis
    by (cases "task_kill (snd (taskList s ! k))") (auto simp: kill_def Let_def)
qed

lemma addTask_fst:
  "map fst (taskList (addTask i t s)) =
    (if i \<in> ids s then map fst (taskList s) else map fst (taskList s) @ [i])"
proof (cases "find (\<lambda>item. fst item = i) (taskList s)")
  case None
  then have "i \<notin> ids s" by (auto simp: find_None_iff ids_def)
  with None show ?thesis by (simp add: addTask_def)
next
  case (Some a)
  then have "i \<in> ids s" by (auto simp: find_Some_iff ids_def)
  with Some show ?thesis by (simp add: addTask_def)
qed

lemma addTask_trace [simp]: "trace (addTask i t s) = trace s"
  by (simp add: addTask_def split: option.splits)

lemma ids_map_fst: "ids s = set (map fst (taskList s))"
  by (simp add: ids_def)

lemma addTask_ids: "ids (addTask i t s) = insert i (ids s)"
  unfolding ids_map_fst addTask_fst by auto

lemma getTaskByIdRollbackBuild_state:
  "snd (getTaskByIdRollbackBuild db list i s) = snd (rollbackBuild_begin db i s)
   \<or> snd (getTaskByIdRollbackBuild db list i s) =
       snd (rollbackBuild_resume list i (snd (rollbackBuild_begin db i s)))"
  by (auto simp: getTaskByIdRollbackBuild_def split: prod.splits option.splits)

lemma begin_distinct:
  "distinct (map fst (taskList s)) \<Longrightarrow>
   distinct (map fst (taskList (snd (rollbackBuild_begin db i s))))"
  using rollbackBuild_begin_state [of db i s]
    buildConversation_distinct [of "s\<lparr>trace := trace s @ [Db_getConversation i]\<rparr>"]
  by auto

lemma resume_distinct:
  "distinct (map fst (taskList s)) \<Longrightarrow>
   distinct (map fst (taskList (snd (rollbackBuild_resume list i s))))"
  using rollbackBuild_resume_state [of list i s] buildConversation_distinct [of s]
  by auto

lemma kill_distinct:
  "distinct (map fst (taskList s)) \<Longrightarrow>
   distinct (map fst (taskList (snd (kill task_kill i s))))"
proof -
  assume d: "distinct (map fst (taskList s))"
  from kill_state [of task_kill i s] show ?thesis
  proof (elim disjE exE conjE)
    assume "snd (kill task_kill i s) = s" with d show ?thesis by simp
  next
    fix k t assume "snd (kill task_kill i s) = s\<lparr>trace := trace s @ [Task_kill t]\<rparr>"
    with d show ?thesis by simp
  next
    fix k t assume k: "findIndex (\<lambda>item. fst item = i) (taskList s) = Some k"
      and "snd (kill task_kill i s) =
             s\<lparr>trace := trace s @ [Task_kill t], taskList := splice1 k (taskList s)\<rparr>"
    moreover from findIndex_Some [OF k] have "k < length (taskList s)" by simp
    ultimately show ?thesis using splice1_fst_distinct [OF d] by simp
  qed
qed

lemma step_distinct:
  assumes d: "distinct (map fst (taskList s))"
  shows "distinct (map fst (taskList (step op s)))"
proof (cases op)
  case (Op_buildConversation c)
  then show ?thesis using buildConversation_distinct [OF d] by simp
next
  case (Op_getTaskByIdRollbackBuild db list i)
  from getTaskByIdRollbackBuild_state [of db list i s] begin_distinct [OF d, of db i]
    resume_distinct [OF begin_distinct [OF d, of db i], of list i]
  show ?thesis using Op_getTaskByIdRollbackBuild by auto
next
  case (Op_rollbackBuild_begin db i)
  then show ?thesis using begin_distinct [OF d] by simp
next
  case (Op_rollbackBuild_resume list i)
  then show ?thesis using resume_distinct [OF d] by simp
next
  case (Op_addTask i t)
  then show ?thesis using d by (simp add: addTask_fst ids_map_fst)
next
  case (Op_kill task_kill i)
  then show ?thesis using kill_distinct [OF d] by simp
next
  case (Op_clear task_kill)
  then show ?thesis using d by (simp add: clear_state)
qed

lemma run_distinct:
  "distinct (map fst (taskList s)) \<Longrightarrow> distinct (map fst (taskList (run ops s)))"
  by (induction ops arbitrary: s) (auto intro: step_distinct)

lemma find_splice1:
  "k < length xs \<Longrightarrow> \<not> P (xs ! k) \<Longrightarrow> find P (splice1 k xs) = find P xs"
proof (induction xs arbitrary: k)
  case Nil
  then show ?case by simp
next
  case (Cons x xs)
  show ?case
  proof (cases k)
    case 0
    with Cons.prems show ?thesis by (simp add: splice1_def)
  next
    case (Suc j)
    with Cons.prems have "find P (splice1 j xs) = find P xs" by (intro Cons.IH) auto
    moreover have "splice1 k (x # xs) = x # splice1 j xs" using Suc by (simp add: splice1_def)
    ultimately show ?thesis by simp
  qed
qed

lemma find_replace_task:
  "j \<noteq> i \<Longrightarrow> find (\<lambda>item. fst item = i) (replace_task j t xs) = find (\<lambda>item. fst item = i) xs"
  by (induction xs) auto

lemma find_append_Some: "find P xs = Some x \<Longrightarrow> find P (xs @ ys) = Some x"
  by (induction xs) (auto split: if_splits)

lemma find_append_None: "find P xs = None \<Longrightarrow> find P (xs @ ys) = find P ys"
  by (induction xs) (auto split: if_splits)

lemma getTaskById_append_Some:
  "getTaskById s i = Some t \<Longrightarrow>
   getTaskById (s\<lparr>taskList := taskList s @ ys, trace := tr, allocated := n\<rparr>) i = Some t"
  by (auto simp: getTaskById_def find_append_Some)

lemma buildConversation_keeps:
  assumes "getTaskById s i = Some t"
  shows "getTaskById (snd (buildConversation c s)) i = Some t"
  using assms by (simp add: buildConversation_state getTaskById_append_Some)

lemma begin_keeps:
  assumes "getTaskById s i = Some t"
  shows "getTaskById (snd (rollbackBuild_begin db j s)) i = Some t"
  using rollbackBuild_begin_state [of db j s] assms
    buildConversation_keeps [of "s\<lparr>trace := trace s @ [Db_getConversation j]\<rparr>" i t]
  by auto

lemma resume_keeps:
  assumes "getTaskById s i = Some t"
  shows "getTaskById (snd (rollbackBuild_resume list j s)) i = Some t"
  using rollbackBuild_resume_state [of list j s] assms buildConversation_keeps [of s i t]
  by auto

lemma kill_keeps:
  assumes "getTaskById s i = Some t" and "j \<noteq> i"
  shows "getTaskById (snd (kill task_kill j s)) i = Some t"
proof -
  from kill_state [of task_kill j s] show ?thesis
  proof (elim disjE exE conjE)
    assume "snd (kill task_kill j s) = s" with assms show ?thesis by simp
  next
    fix k u assume "snd (kill task_kill j s) = s\<lparr>trace := trace s @ [Task_kill u]\<rparr>"
    with assms show ?thesis by simp
  next
    fix k u assume k: "findIndex (\<lambda>item. fst item = j) (taskList s) = Some k"
      and st: "snd (kill task_kill j s) =
             s\<lparr>trace := trace s @ [Task_kill u], taskList := splice1 k (taskList s)\<rparr>"
    from findIndex_Some [OF k] have "k < length (taskList s)" "fst (taskList s ! k) = j" by auto
    with \<open>j \<noteq> i\<close> have "find (\<lambda>item. fst item = i) (splice1 k (taskList s))
        = find (\<lambda>item. fst item = i) (taskList s)"
      by (intro find_splice1) auto
    with assms(1) st show ?thesis by (simp add: getTaskById_def)
  qed
qed

lemma addTask_keeps:
  assumes "getTaskById s i = Some t" and "j \<noteq> i"
  shows "getTaskById (addTask j u s) i = Some t"
  using assms
  by (auto simp: addTask_def getTaskById_def find_replace_task find_append_Some
      split: option.splits)

lemma step_keeps:
  assumes g: "getTaskById s i = Some t" and "\<not> removes i op" and "\<not> replaces i op"
  shows "getTaskById (step op s) i = Some t"
proof (cases op)
  case (Op_buildConversation c)
  then show ?thesis using buildConversation_keeps [OF g] by simp
next
  case (Op_getTaskByIdRollbackBuild db list j)
  from getTaskByIdRollbackBuild_state [of db list j s] begin_keeps [OF g, of db j]
    resume_keeps [OF begin_keeps [OF g, of db j], of list j]
  show ?thesis using Op_getTaskByIdRollbackBuild by auto
next
  case (Op_rollbackBuild_begin db j)
  then show ?thesis using begin_keeps [OF g] by simp
next
  case (Op_rollbackBuild_resume list j)
  then show ?thesis using resume_keeps [OF g] by simp
next
  case (Op_addTask j u)
  then show ?thesis using assms addTask_keeps [OF g, of j u] by simp
next
  case (Op_kill task_kill j)
  then show ?thesis using assms kill_keeps [OF g, of j task_kill] by simp
next
  case (Op_clear task_kill)
  then show ?thesis using assms by simp
qed

lemma getTaskById_Some_ids: "getTaskById s i = Some t \<Longrightarrow> i \<in> ids s"
  using getTaskById_None_ids [of s i] by auto

lemma begin_constructions_present:
  assumes "i \<in> ids s"
  shows "constructions i (trace (snd (rollbackBuild_begin db j s))) = constructions i (trace s)"
  using rollbackBuild_begin_state [of db j s] assms
    buildConversation_constructions_present [of i "s\<lparr>trace := trace s @ [Db_getConversation j]\<rparr>"]
  by (auto simp: constructions_def)

lemma resume_constructions_present:
  assumes "i \<in> ids s"
  shows "constructions i (trace (snd (rollbackBuild_resume list j s))) = constructions i (trace s)"
  using rollbackBuild_resume_state [of list j s] assms
    buildConversation_constructions_present [of i s]
  by auto

lemma begin_ids: "ids s \<subseteq> ids (snd (rollbackBuild_begin db j s))"
proof -
  have b: "ids s \<subseteq> ids (snd (buildConversation c (s\<lparr>trace := trace s @ [Db_getConversation j]\<rparr>)))"
    for c
    using buildConversation_ids [of "s\<lparr>trace := trace s @ [Db_getConversation j]\<rparr>" c]
    by simp
  from rollbackBuild_begin_state [of db j s] show ?thesis
  proof (elim disjE exE)
    fix c assume "snd (rollbackBuild_begin db j s) =
          snd (buildConversation c (s\<lparr>trace := trace s @ [Db_getConversation j]\<rparr>))"
    with b [of c] show ?thesis by simp
  qed simp_all
qed

lemma step_constructions_present:
  assumes p: "i \<in> ids s"
  shows "constructions i (trace (step op s)) = constructions i (trace s)"
proof (cases op)
  case (Op_buildConversation c)
  then show ?thesis using buildConversation_constructions_present [OF p] by simp
next
  case (Op_getTaskByIdRollbackBuild db list j)
  from p begin_ids [of s db j] have "i \<in> ids (snd (rollbackBuild_begin db j s))" by blast
  from resume_constructions_present [OF this, of list j]
    begin_constructions_present [OF p, of db j]
    getTaskByIdRollbackBuild_state [of db list j s]
  show ?thesis using Op_getTaskByIdRollbackBuild by auto
next
  case (Op_rollbackBuild_begin db j)
  then show ?thesis using begin_constructions_present [OF p] by simp
next
  case (Op_rollbackBuild_resume list j)
  then show ?thesis using resume_constructions_present [OF p] by simp
next
  case (Op_addTask j u)
  then show ?thesis by simp
next
  case (Op_kill task_kill j)
  then show ?thesis using kill_state [of task_kill j s] by (auto simp: constructions_def)
next
  case (Op_clear task_kill)
  then show ?thesis by (simp add: clear_state)
qed

lemma set_splice1:
  "k < length xs \<Longrightarrow> x \<in> set xs \<Longrightarrow> fst x \<noteq> fst (xs ! k) \<Longrightarrow> x \<in> set (splice1 k xs)"
proof -
  assume k: "k < length xs" and x: "x \<in> set xs" and ne: "fst x \<noteq> fst (xs ! k)"
  from id_take_nth_drop [OF k] have "set xs = set (take k xs) \<union> {xs ! k} \<union> set (drop (Suc k) xs)"
    by (metis list.simps(15) set_append Un_assoc insert_is_Un)
  with x ne show ?thesis by (auto simp: splice1_def)
qed

lemma resume_ids: "ids s \<subseteq> ids (snd (rollbackBuild_resume list j s))"
  using rollbackBuild_resume_state [of list j s] buildConversation_ids [of s]
  by (elim disjE exE) simp_all

lemma kill_ids:
  assumes "i \<in> ids s" and "j \<noteq> i"
  shows "i \<in> ids (snd (kill task_kill j s))"
proof -
  from kill_state [of task_kill j s] show ?thesis
  proof (elim disjE exE conjE)
    assume "snd (kill task_kill j s) = s" with assms show ?thesis by simp
  next
    fix k u assume "snd (kill task_kill j s) = s\<lparr>trace := trace s @ [Task_kill u]\<rparr>"
    with assms show ?thesis by simp
  next
    fix k u assume k: "findIndex (\<lambda>item. fst item = j) (taskList s) = Some k"
      and st: "snd (kill task_kill j s) =
             s\<lparr>trace := trace s @ [Task_kill u], taskList := splice1 k (taskList s)\<rparr>"
    from findIndex_Some [OF k] have kl: "k < length (taskList s)" and kj: "fst (taskList s ! k) = j"
      by auto
    from assms(1) obtain x where x: "x \<in> set (taskList s)" "fst x = i" by (auto simp: ids_def)
    with kj \<open>j \<noteq> i\<close> have "x \<in> set (splice1 k (taskList s))" by (intro set_splice1 [OF kl]) auto
    with x st show ?thesis by (auto simp: ids_def)
  qed
qed

lemma step_ids:
  assumes p: "i \<in> ids s" and nr: "\<not> removes i op"
  shows "i \<in> ids (step op s)"
proof (cases op)
  case (Op_buildConversation c)
  then show ?thesis using buildConversation_ids [of s c] p by auto
next
  case (Op_getTaskByIdRollbackBuild db list j)
  from p begin_ids [of s db j] have b: "i \<in> ids (snd (rollbackBuild_begin db j s))" by blast
  with resume_ids [of "snd (rollbackBuild_begin db j s)" list j]
  have "i \<in> ids (snd (rollbackBuild_resume list j (snd (rollbackBuild_begin db j s))))" by blast
  with b getTaskByIdRollbackBuild_state [of db list j s]
  show ?thesis using Op_getTaskByIdRollbackBuild by auto
next
  case (Op_rollbackBuild_begin db j)
  then show ?thesis using begin_ids [of s db j] p by auto
next
  case (Op_rollbackBuild_resume list j)
  then show ?thesis using resume_ids [of s list j] p by auto
next
  case (Op_addTask j u)
  then show ?thesis using p by (simp add: addTask_ids)
next
  case (Op_kill task_kill j)
  then show ?thesis using kill_ids [OF p, of j task_kill] nr by simp
next
  case (Op_clear task_kill)
  then show ?thesis using nr by simp
qed

lemma buildConversation_built_once:
  assumes "built_once i s"
  shows "built_once i (snd (buildConversation c s))"
proof (cases "i \<in> ids s")
  case True
  with buildConversation_ids [of s c] have "i \<in> ids (snd (buildConversation c s))" by blast
  with True assms buildConversation_constructions_present [OF True, of c]
  show ?thesis by (simp add: built_once_def)
next
  case False
  with assms buildConversation_constructions_absent [OF False, of c]
  show ?thesis by (auto simp: built_once_def)
qed

lemma built_once_trace:
  "constructions i evs = 0 \<Longrightarrow> built_once i (s\<lparr>trace := trace s @ evs\<rparr>) = built_once i s"
  by (simp add: built_once_def)

lemma begin_built_once:
  assumes b: "built_once i s"
  shows "built_once i (snd (rollbackBuild_begin db j s))"
proof -
  have e1: "constructions i [Db_getConversation j] = 0"
    and e2: "constructions i [Db_getConversation j, ProcessChat_get ''chat.history''] = 0"
    by (simp_all add: constructions_def)
  from b have b1: "built_once i (s\<lparr>trace := trace s @ [Db_getConversation j]\<rparr>)"
    by (simp add: built_once_trace [OF e1])
  from b have b2: "built_once i
      (s\<lparr>trace := trace s @ [Db_getConversation j, ProcessChat_get ''chat.history'']\<rparr>)"
    by (simp add: built_once_trace [OF e2])
  from rollbackBuild_begin_state [of db j s] show ?thesis
  proof (elim disjE exE)
    fix c assume "snd (rollbackBuild_begin db j s) =
          snd (buildConversation c (s\<lparr>trace := trace s @ [Db_getConversation j]\<rparr>))"
    with buildConversation_built_once [OF b1, of c] show ?thesis by simp
  qed (use b b2 in simp_all)
qed

lemma resume_built_once:
  assumes b: "built_once i s"
  shows "built_once i (snd (rollbackBuild_resume list j s))"
  using rollbackBuild_resume_state [of list j s] b buildConversation_built_once [OF b]
  by (elim disjE exE) simp_all

lemma step_built_once:
  assumes b: "built_once i s" and nr: "\<not> removes i op"
  shows "built_once i (step op s)"
proof (cases op)
  case (Op_buildConversation c)
  then show ?thesis using buildConversation_built_once [OF b] by simp
next
  case (Op_getTaskByIdRollbackBuild db list j)
  from getTaskByIdRollbackBuild_state [of db list j s] begin_built_once [OF b, of db j]
    resume_built_once [OF begin_built_once [OF b, of db j], of list j]
  show ?thesis using Op_getTaskByIdRollbackBuild by auto
next
  case (Op_rollbackBuild_begin db j)
  then show ?thesis using begin_built_once [OF b] by simp
next
  case (Op_rollbackBuild_resume list j)
  then show ?thesis using resume_built_once [OF b] by simp
next
  case (Op_addTask j u)
  then show ?thesis using b by (auto simp: built_once_def addTask_ids split: if_splits)
next
  case (Op_kill task_kill j)
  with nr have ne: "j \<noteq> i" by simp
  have c: "constructions i (trace (snd (kill task_kill j s))) = constructions i (trace s)"
    using kill_state [of task_kill j s] by (auto simp: constructions_def)
  show ?thesis
  proof (cases "i \<in> ids s")
    case True
    from kill_ids [OF True ne, of task_kill] b c True show ?thesis
      using Op_kill by (simp add: built_once_def)
  next
    case False
    with b c show ?thesis using Op_kill by (simp add: built_once_def)
  qed
next
  case (Op_clear task_kill)
  then show ?thesis using nr by simp
qed

lemma run_built_once:
  "built_once i s \<Longrightarrow> list_all (\<lambda>op. \<not> removes i op) ops \<Longrightarrow> built_once i (run ops s)"
  by (induction ops arbitrary: s) (auto intro: step_built_once)

lemma run_keeps:
  "getTaskById s i = Some t \<Longrightarrow> list_all (\<lambda>op. \<not> removes i op \<and> \<not> replaces i op) ops \<Longrightarrow>
   getTaskById (run ops s) i = Some t"
  by (induction ops arbitrary: s) (auto intro: step_keeps)

lemma run_constructions_present:
  "getTaskById s i = Some t \<Longrightarrow> list_all (\<lambda>op. \<not> removes i op \<and> \<not> replaces i op) ops \<Longrightarrow>
   constructions i (trace (run ops s)) = constructions i (trace s)"
proof (induction ops arbitrary: s)
  case Nil
  then show ?case by simp
next
  case (Cons op ops)
  from Cons.prems have k: "getTaskById (step op s) i = Some t" by (auto intro: step_keeps)
  from Cons.prems have "i \<in> ids s" by (auto dest: getTaskById_Some_ids)
  from step_constructions_present [OF this, of op] Cons.IH [OF k] Cons.prems
  show ?case by simp
qed

lemma history_reads_append [simp]:
  "history_reads (xs @ ys) = history_reads xs + history_reads ys"
  by (simp add: history_reads_def)

lemma buildConversation_history_reads:
  "history_reads (trace (snd (buildConversation c s))) = history_reads (trace s)"
  by (simp add: buildConversation_state history_reads_def)

lemma buildConversation_fst_new:
  "conversation_id c \<notin> ids s \<Longrightarrow> supported (conversation_type c) \<Longrightarrow>
   fst (buildConversation c s) = Some (new_task c (allocated s))"
  by (simp add: buildConversation_new getTaskById_None_ids)

lemma buildConversation_getTaskById_new:
  assumes "conversation_id c \<notin> ids s" and "supported (conversation_type c)"
  shows "getTaskById (snd (buildConversation c s)) (conversation_id c)
    = Some (new_task c (allocated s))"
proof -
  from assms(1) have "getTaskById s (conversation_id c) = None"
    by (simp add: getTaskById_None_ids)
  then have "find (\<lambda>item. fst item = conversation_id c) (taskList s) = None"
    by (simp add: getTaskById_def)
  with assms show ?thesis
    by (simp add: buildConversation_state getTaskById_def find_append_None)
qed

lemma getTaskByIdRollbackBuild_memory:
  assumes "getTaskById s i = Some t"
  shows "getTaskByIdRollbackBuild db list i s = (Inr (Some t), s)"
  using assms by (simp add: getTaskByIdRollbackBuild_def rollbackBuild_begin_memory)

lemma getTaskByIdRollbackBuild_primary:
  assumes "getTaskById s i = None" and "success (db i)" and "data (db i) = Some c"
  shows "getTaskByIdRollbackBuild db list i s =
      (Inr (fst (buildConversation c (s\<lparr>trace := trace s @ [Db_getConversation i]\<rparr>))),
       snd (buildConversation c (s\<lparr>trace := trace s @ [Db_getConversation i]\<rparr>)))"
  using assms by (simp add: getTaskByIdRollbackBuild_def rollbackBuild_begin_db)

lemma getTaskByIdRollbackBuild_secondary:
  assumes "getTaskById s i = None" and "\<not> success (db i) \<or> data (db i) = None"
    and "list = Some l" and "find (\<lambda>item. conversation_id item = i) l = Some c"
  shows "getTaskByIdRollbackBuild db list i s =
      (Inr (fst (buildConversation c
          (s\<lparr>trace := trace s @ [Db_getConversation i, ProcessChat_get ''chat.history'']\<rparr>))),
       snd (buildConversation c
          (s\<lparr>trace := trace s @ [Db_getConversation i, ProcessChat_get ''chat.history'']\<rparr>)))"
  using assms
  by (simp add: getTaskByIdRollbackBuild_def rollbackBuild_begin_await rollbackBuild_resume_found)

lemma getTaskByIdRollbackBuild_not_found:
  assumes "getTaskById s i = None" and "\<not> success (db i) \<or> data (db i) = None"
    and "list = None \<or> (\<exists>l. list = Some l \<and> find (\<lambda>item. conversation_id item = i) l = None)"
  shows "getTaskByIdRollbackBuild db list i s =
      (Inl (Error ''Conversation not found''),
       s\<lparr>trace := trace s @ [Db_getConversation i, ProcessChat_get ''chat.history'']\<rparr>)"
  using assms
  by (simp add: getTaskByIdRollbackBuild_def rollbackBuild_begin_await rollbackBuild_resume_missing)

text \<open>
  Claim C1, as amended. \<open>getTaskByIdRollbackBuild\<close> goes through three tiers. If
  the list has a task for the id, the promise resolves with that task and nothing
  else happens. If not, and the database answers with \<open>success\<close> and a record, the
  record goes to \<open>buildConversation\<close>, whose result is the resolved value, and the
  history store is not read (the trace gains no \<open>ProcessChat_get\<close>); for a record
  of the requested id with type \<open>acp\<close> or \<open>codex\<close> the value is the task
  constructed from the record, now stored under the id, and for a record of any
  other type it is \<open>null\<close>, with nothing stored. If the database misses, the
  history is read and its first record with the id goes to \<open>buildConversation\<close>
  in the same way.
  If both miss, the promise is rejected with \<open>Error('Conversation not found')\<close>
  and the list is unchanged.
\<close>

theorem getTaskByIdRollbackBuild_tiers:
  "(getTaskById s i = Some t \<longrightarrow>
      getTaskByIdRollbackBuild db list i s = (Inr (Some t), s))
   \<and> (getTaskById s i = None \<and> success (db i) \<and> data (db i) = Some c \<longrightarrow>
      getTaskByIdRollbackBuild db list i s =
        (Inr (fst (buildConversation c (s\<lparr>trace := trace s @ [Db_getConversation i]\<rparr>))),
         snd (buildConversation c (s\<lparr>trace := trace s @ [Db_getConversation i]\<rparr>)))
      \<and> history_reads (trace (snd (getTaskByIdRollbackBuild db list i s))) = history_reads (trace s)
      \<and> (conversation_id c = i \<and> supported (conversation_type c) \<longrightarrow>
           fst (getTaskByIdRollbackBuild db list i s) = Inr (Some (new_task c (allocated s)))
           \<and> getTaskById (snd (getTaskByIdRollbackBuild db list i s)) i
               = Some (new_task c (allocated s)))
      \<and> (conversation_id c = i \<and> \<not> supported (conversation_type c) \<longrightarrow>
           getTaskByIdRollbackBuild db list i s
             = (Inr None, s\<lparr>trace := trace s @ [Db_getConversation i]\<rparr>)))
   \<and> (getTaskById s i = None \<and> (\<not> success (db i) \<or> data (db i) = None)
       \<and> list = Some l \<and> find (\<lambda>item. conversation_id item = i) l = Some c \<longrightarrow>
      getTaskByIdRollbackBuild db list i s =
        (Inr (fst (buildConversation c
            (s\<lparr>trace := trace s @ [Db_getConversation i, ProcessChat_get ''chat.history'']\<rparr>))),
         snd (buildConversation c
            (s\<lparr>trace := trace s @ [Db_getConversation i, ProcessChat_get ''chat.history'']\<rparr>)))
      \<and> (supported (conversation_type c) \<longrightarrow>
           fst (getTaskByIdRollbackBuild db list i s) = Inr (Some (new_task c (allocated s)))
           \<and> getTaskById (snd (getTaskByIdRollbackBuild db list i s)) i
               = Some (new_task c (allocated s)))
      \<and> (\<not> supported (conversation_type c) \<longrightarrow>
           getTaskByIdRollbackBuild db list i s
             = (Inr None,
                s\<lparr>trace := trace s @ [Db_getConversation i, ProcessChat_get ''chat.history'']\<rparr>)))
   \<and> (getTaskById s i = None \<and> (\<not> success (db i) \<or> data (db i) = None)
       \<and> (list = None \<or> (\<exists>l. list = Some l \<and> find (\<lambda>item. conversation_id item = i) l = None))
      \<longrightarrow>
      fst (getTaskByIdRollbackBuild db list i s) = Inl (Error ''Conversation not found'')
      \<and> taskList (snd (getTaskByIdRollbackBuild db list i s)) = taskList s)"
proof (intro conjI impI)
  assume "getTaskById s i = Some t"
  then show "getTaskByIdRollbackBuild db list i s = (Inr (Some t), s)"
    by (rule getTaskByIdRollbackBuild_memory)
next
  assume a: "getTaskById s i = None \<and> success (db i) \<and> data (db i) = Some c"
  let ?s1 = "s\<lparr>trace := trace s @ [Db_getConversation i]\<rparr>"
  from a show eq: "getTaskByIdRollbackBuild db list i s =
        (Inr (fst (buildConversation c ?s1)), snd (buildConversation c ?s1))"
    by (simp add: getTaskByIdRollbackBuild_primary)
  show "history_reads (trace (snd (getTaskByIdRollbackBuild db list i s))) = history_reads (trace s)"
    by (simp add: eq buildConversation_history_reads) (simp add: history_reads_def)
  {
    assume b: "conversation_id c = i \<and> supported (conversation_type c)"
    from a b have n: "conversation_id c \<notin> ids ?s1" by (simp add: getTaskById_None_ids)
    from b have sup: "supported (conversation_type c)" by simp
    show "fst (getTaskByIdRollbackBuild db list i s) = Inr (Some (new_task c (allocated s)))"
      using buildConversation_fst_new [OF n sup] by (simp add: eq)
    from b have ci: "conversation_id c = i" by simp
    show "getTaskById (snd (getTaskByIdRollbackBuild db list i s)) i
               = Some (new_task c (allocated s))"
      unfolding eq snd_conv using buildConversation_getTaskById_new [OF n sup] ci by simp
  }
  {
    assume b: "conversation_id c = i \<and> \<not> supported (conversation_type c)"
    with a have "getTaskById ?s1 (conversation_id c) = None" by simp
    from buildConversation_unsupported [OF this] b
    show "getTaskByIdRollbackBuild db list i s
             = (Inr None, s\<lparr>trace := trace s @ [Db_getConversation i]\<rparr>)"
      by (simp add: eq)
  }
next
  assume a: "getTaskById s i = None \<and> (\<not> success (db i) \<or> data (db i) = None)
       \<and> list = Some l \<and> find (\<lambda>item. conversation_id item = i) l = Some c"
  let ?s2 = "s\<lparr>trace := trace s @ [Db_getConversation i, ProcessChat_get ''chat.history'']\<rparr>"
  from a show eq: "getTaskByIdRollbackBuild db list i s =
        (Inr (fst (buildConversation c ?s2)), snd (buildConversation c ?s2))"
    by (simp add: getTaskByIdRollbackBuild_secondary)
  from a have ci: "conversation_id c = i" by (auto simp: find_Some_iff)
  {
    assume sup: "supported (conversation_type c)"
    from a ci have n: "conversation_id c \<notin> ids ?s2" by (simp add: getTaskById_None_ids)
    show "fst (getTaskByIdRollbackBuild db list i s) = Inr (Some (new_task c (allocated s)))"
      using buildConversation_fst_new [OF n sup] by (simp add: eq)
    show "getTaskById (snd (getTaskByIdRollbackBuild db list i s)) i
               = Some (new_task c (allocated s))"
      unfolding eq snd_conv using buildConversation_getTaskById_new [OF n sup] ci by simp
  }
  {
    assume b: "\<not> supported (conversation_type c)"
    from a ci have "getTaskById ?s2 (conversation_id c) = None" by simp
    from buildConversation_unsupported [OF this b]
    show "getTaskByIdRollbackBuild db list i s
             = (Inr None,
                s\<lparr>trace := trace s @ [Db_getConversation i, ProcessChat_get ''chat.history'']\<rparr>)"
      by (simp add: eq)
  }
next
  assume a: "getTaskById s i = None \<and> (\<not> success (db i) \<or> data (db i) = None)
       \<and> (list = None \<or> (\<exists>l. list = Some l \<and> find (\<lambda>item. conversation_id item = i) l = None))"
  then have eq: "getTaskByIdRollbackBuild db list i s =
      (Inl (Error ''Conversation not found''),
       s\<lparr>trace := trace s @ [Db_getConversation i, ProcessChat_get ''chat.history'']\<rparr>)"
    by (intro getTaskByIdRollbackBuild_not_found) auto
  show "fst (getTaskByIdRollbackBuild db list i s) = Inl (Error ''Conversation not found'')"
    by (simp add: eq)
  show "taskList (snd (getTaskByIdRollbackBuild db list i s)) = taskList s"
    by (simp add: eq)
qed

lemma run_empty_distinct: "distinct (map fst (taskList (run ops empty_registry)))"
  by (rule run_distinct) (simp add: empty_registry_def)

lemma kill_present_returns:
  assumes g: "getTaskById s i = Some t" and d: "distinct (map fst (taskList s))"
    and r: "task_kill t = None"
  shows "fst (kill task_kill i s) = Inr ()"
    and "i \<notin> ids (snd (kill task_kill i s))"
    and "trace (snd (kill task_kill i s)) = trace s @ [Task_kill t]"
    and "ids (snd (kill task_kill i s)) = ids s - {i}"
proof -
  from getTaskById_findIndex [OF g] obtain k
    where k: "findIndex (\<lambda>item. fst item = i) (taskList s) = Some k"
      and kl: "k < length (taskList s)" and kn: "taskList s ! k = (i, t)" by blast
  from r kn have "task_kill (snd (taskList s ! k)) = None" by simp
  from kill_returns [of i s k task_kill] k this kn have eq: "kill task_kill i s =
     (Inr (), s\<lparr>trace := trace s @ [Task_kill t], taskList := splice1 k (taskList s)\<rparr>)"
    by simp
  from splice1_fst_distinct [OF d kl] kn
  have a: "i \<notin> fst ` set (splice1 k (taskList s))"
    and b: "fst ` set (splice1 k (taskList s)) = fst ` set (taskList s) - {i}" by simp_all
  show "fst (kill task_kill i s) = Inr ()" by (simp add: eq)
  show "i \<notin> ids (snd (kill task_kill i s))" using a by (simp add: eq ids_def)
  show "trace (snd (kill task_kill i s)) = trace s @ [Task_kill t]" by (simp add: eq)
  show "ids (snd (kill task_kill i s)) = ids s - {i}" using b by (simp add: eq ids_def)
qed

lemma kill_present_throws:
  assumes g: "getTaskById s i = Some t" and r: "task_kill t = Some e"
  shows "kill task_kill i s = (Inl e, s\<lparr>trace := trace s @ [Task_kill t]\<rparr>)"
proof -
  from getTaskById_findIndex [OF g] obtain k
    where k: "findIndex (\<lambda>item. fst item = i) (taskList s) = Some k"
      and kn: "taskList s ! k = (i, t)" by blast
  from r kn have "task_kill (snd (taskList s ! k)) = Some e" by simp
  from kill_throws [of i s k task_kill e] k this kn show ?thesis by simp
qed

text \<open>
  Claim C3, as amended. When the \<open>kill()\<close> of the stored task returns, \<open>kill(id)\<close>
  calls it once, removes the entry and returns; when it throws, the exception
  leaves \<open>kill(id)\<close> and the list is unchanged. When the \<open>kill()\<close> of every stored
  task returns, \<open>clear()\<close> calls each in list order, empties the list and returns;
  when one of them throws, the exception leaves \<open>clear()\<close> and no entry is removed.
\<close>

theorem kill_clear_outcomes:
  "(s = run ops empty_registry \<and> getTaskById s i = Some t \<and> task_kill t = None \<longrightarrow>
      fst (kill task_kill i s) = Inr ()
      \<and> i \<notin> ids (snd (kill task_kill i s))
      \<and> trace (snd (kill task_kill i s)) = trace s @ [Task_kill t])
   \<and> (getTaskById s i = Some t \<and> task_kill t = Some e \<longrightarrow>
      kill task_kill i s = (Inl e, s\<lparr>trace := trace s @ [Task_kill t]\<rparr>))
   \<and> (list_all (\<lambda>item. task_kill (snd item) = None) (taskList s) \<longrightarrow>
      clear task_kill s =
        (Inr (), s\<lparr>taskList := [],
                  trace := trace s @ map (\<lambda>item. Task_kill (snd item)) (taskList s)\<rparr>))
   \<and> (\<not> list_all (\<lambda>item. task_kill (snd item) = None) (taskList s) \<longrightarrow>
      (\<exists>e'. fst (clear task_kill s) = Inl e')
      \<and> taskList (snd (clear task_kill s)) = taskList s)"
proof (intro conjI impI)
  assume a: "s = run ops empty_registry \<and> getTaskById s i = Some t \<and> task_kill t = None"
  then have "s = run ops empty_registry" by blast
  then have d: "distinct (map fst (taskList s))" by (simp add: run_empty_distinct)
  from a have g: "getTaskById s i = Some t" and r: "task_kill t = None" by blast+
  show "fst (kill task_kill i s) = Inr ()" using kill_present_returns(1) [of s i t task_kill] g d r by blast
  show "i \<notin> ids (snd (kill task_kill i s))" using kill_present_returns(2) [of s i t task_kill] g d r by blast
  show "trace (snd (kill task_kill i s)) = trace s @ [Task_kill t]"
    using kill_present_returns(3) [of s i t task_kill] g d r by blast
next
  assume "getTaskById s i = Some t \<and> task_kill t = Some e"
  then show "kill task_kill i s = (Inl e, s\<lparr>trace := trace s @ [Task_kill t]\<rparr>)"
    by (simp add: kill_present_throws)
next
  assume "list_all (\<lambda>item. task_kill (snd item) = None) (taskList s)"
  then show "clear task_kill s =
        (Inr (), s\<lparr>taskList := [],
                  trace := trace s @ map (\<lambda>item. Task_kill (snd item)) (taskList s)\<rparr>)"
    by (rule clear_returns)
next
  assume n: "\<not> list_all (\<lambda>item. task_kill (snd item) = None) (taskList s)"
  from clear_throws [OF n] show "\<exists>e'. fst (clear task_kill s) = Inl e'" by blast
  from clear_throws [OF n] show "taskList (snd (clear task_kill s)) = taskList s" by blast
qed

lemma kill_twice_taskList:
  assumes d: "distinct (map fst (taskList s))"
  shows "taskList (snd (kill task_kill i (snd (kill task_kill i s))))
    = taskList (snd (kill task_kill i s))"
    and "fst (kill task_kill i (snd (kill task_kill i s))) = fst (kill task_kill i s)"
proof -
  let ?s1 = "snd (kill task_kill i s)"
  have "taskList (snd (kill task_kill i ?s1)) = taskList ?s1
      \<and> fst (kill task_kill i ?s1) = fst (kill task_kill i s)"
  proof (cases "getTaskById s i")
    case None
    then show ?thesis by (simp add: kill_absent)
  next
    case (Some t)
    show ?thesis
    proof (cases "task_kill t")
      case None
      from kill_present_returns(2) [of s i t task_kill] Some d None
      have "getTaskById ?s1 i = None" by (simp add: getTaskById_None_ids)
      then have "kill task_kill i ?s1 = (Inr (), ?s1)" by (rule kill_absent)
      moreover from kill_present_returns(1) [of s i t task_kill] Some d None
      have "fst (kill task_kill i s) = Inr ()" by blast
      ultimately show ?thesis by simp
    next
      case (Some e)
      from kill_present_throws [of s i t task_kill e] \<open>getTaskById s i = Some t\<close> Some
      have eq: "kill task_kill i s = (Inl e, s\<lparr>trace := trace s @ [Task_kill t]\<rparr>)" by blast
      from \<open>getTaskById s i = Some t\<close>
      have "getTaskById (s\<lparr>trace := trace s @ [Task_kill t]\<rparr>) i = Some t" by simp
      from kill_present_throws [of "s\<lparr>trace := trace s @ [Task_kill t]\<rparr>" i t task_kill e] this Some
      show ?thesis by (simp add: eq)
    qed
  qed
  then show "taskList (snd (kill task_kill i ?s1)) = taskList ?s1"
    and "fst (kill task_kill i ?s1) = fst (kill task_kill i s)" by blast+
qed

text \<open>
  Claim C9, as amended. \<open>kill\<close> of an id with no entry returns without error and
  changes nothing, whatever the tasks do. In a reachable state with an entry for
  the id whose task's \<open>kill()\<close> returns, \<open>kill(id)\<close> returns without error and
  leaves no entry for the id, and a second \<open>kill(id)\<close> returns without error and
  changes nothing more. With an entry whose task's \<open>kill()\<close> throws, \<open>kill(id)\<close>
  throws the same exception and the entry stays, the first time and the second.
  So in every reachable state the list and the outcome after two calls are those
  after one.
\<close>

theorem kill_idempotent:
  "(getTaskById s i = None \<longrightarrow> kill task_kill i s = (Inr (), s))
   \<and> (s = run ops empty_registry \<and> getTaskById s i = Some t \<and> task_kill t = None \<longrightarrow>
        fst (kill task_kill i s) = Inr ()
        \<and> getTaskById (snd (kill task_kill i s)) i = None
        \<and> kill task_kill' i (snd (kill task_kill i s)) = (Inr (), snd (kill task_kill i s)))
   \<and> (getTaskById s i = Some t \<and> task_kill t = Some e \<longrightarrow>
        fst (kill task_kill i s) = Inl e
        \<and> getTaskById (snd (kill task_kill i s)) i = Some t
        \<and> taskList (snd (kill task_kill i s)) = taskList s
        \<and> fst (kill task_kill i (snd (kill task_kill i s))) = Inl e
        \<and> taskList (snd (kill task_kill i (snd (kill task_kill i s)))) = taskList s)
   \<and> (s = run ops empty_registry \<longrightarrow>
        taskList (snd (kill task_kill i (snd (kill task_kill i s))))
          = taskList (snd (kill task_kill i s))
        \<and> fst (kill task_kill i (snd (kill task_kill i s))) = fst (kill task_kill i s))"
proof (intro conjI impI)
  assume "getTaskById s i = None"
  then show "kill task_kill i s = (Inr (), s)" by (rule kill_absent)
next
  assume a: "s = run ops empty_registry \<and> getTaskById s i = Some t \<and> task_kill t = None"
  then have "s = run ops empty_registry" by blast
  then have d: "distinct (map fst (taskList s))" by (simp add: run_empty_distinct)
  from a have g: "getTaskById s i = Some t" and r: "task_kill t = None" by blast+
  show "fst (kill task_kill i s) = Inr ()" using kill_present_returns(1) [of s i t task_kill] g d r by blast
  from kill_present_returns(2) [of s i t task_kill] g d r
  show n: "getTaskById (snd (kill task_kill i s)) i = None" by (simp add: getTaskById_None_ids)
  show "kill task_kill' i (snd (kill task_kill i s)) = (Inr (), snd (kill task_kill i s))"
    by (rule kill_absent [OF n])
next
  assume a: "getTaskById s i = Some t \<and> task_kill t = Some e"
  let ?s1 = "s\<lparr>trace := trace s @ [Task_kill t]\<rparr>"
  from a kill_present_throws [of s i t task_kill e]
  have eq: "kill task_kill i s = (Inl e, ?s1)" by blast
  from a have "getTaskById ?s1 i = Some t" by simp
  with a kill_present_throws [of ?s1 i t task_kill e]
  have eq2: "kill task_kill i ?s1 = (Inl e, ?s1\<lparr>trace := trace ?s1 @ [Task_kill t]\<rparr>)" by blast
  show "fst (kill task_kill i s) = Inl e" by (simp add: eq)
  show "getTaskById (snd (kill task_kill i s)) i = Some t" using a by (simp add: eq)
  show "taskList (snd (kill task_kill i s)) = taskList s" by (simp add: eq)
  show "fst (kill task_kill i (snd (kill task_kill i s))) = Inl e" by (simp add: eq eq2)
  show "taskList (snd (kill task_kill i (snd (kill task_kill i s)))) = taskList s"
    by (simp add: eq eq2)
next
  assume "s = run ops empty_registry"
  then have d: "distinct (map fst (taskList s))" by (simp add: run_empty_distinct)
  show "taskList (snd (kill task_kill i (snd (kill task_kill i s))))
          = taskList (snd (kill task_kill i s))"
    by (rule kill_twice_taskList(1) [OF d])
  show "fst (kill task_kill i (snd (kill task_kill i s))) = fst (kill task_kill i s)"
    by (rule kill_twice_taskList(2) [OF d])
qed

lemma replace_task_update:
  "findIndex (\<lambda>item. fst item = i) xs = Some k \<Longrightarrow> replace_task i t xs = xs[k := (i, t)]"
  by (induction xs arbitrary: k) (auto split: if_splits)

lemma find_replace_task_same:
  "find (\<lambda>item. fst item = i) xs = Some item \<Longrightarrow>
   find (\<lambda>item. fst item = i) (replace_task i t xs) = Some (i, t)"
  by (induction xs) (auto split: if_splits)

text \<open>
  Claim C10. \<open>addTask(id, task2)\<close> on a list that has an entry \<open>(id, task1)\<close>
  writes \<open>task2\<close> into that entry: the list keeps its length and its ids in their
  order, the entry at the index of the id now holds \<open>task2\<close>, and the trace is
  unchanged, so no \<open>kill()\<close> was called on \<open>task1\<close> and nothing was constructed.
\<close>

theorem addTask_replaces_in_place:
  "getTaskById s i = Some task1 \<Longrightarrow>
     length (taskList (addTask i task2 s)) = length (taskList s)
   \<and> map fst (taskList (addTask i task2 s)) = map fst (taskList s)
   \<and> (\<exists>k. findIndex (\<lambda>item. fst item = i) (taskList s) = Some k
          \<and> taskList s ! k = (i, task1)
          \<and> taskList (addTask i task2 s) = (taskList s)[k := (i, task2)])
   \<and> getTaskById (addTask i task2 s) i = Some task2
   \<and> trace (addTask i task2 s) = trace s
   \<and> allocated (addTask i task2 s) = allocated s"
proof -
  assume g: "getTaskById s i = Some task1"
  from getTaskById_findIndex [OF g] obtain k
    where k: "findIndex (\<lambda>item. fst item = i) (taskList s) = Some k"
      and kn: "taskList s ! k = (i, task1)" by blast
  from g obtain item where f: "find (\<lambda>item. fst item = i) (taskList s) = Some item"
    by (auto simp: getTaskById_def)
  then have eq: "addTask i task2 s = s\<lparr>taskList := replace_task i task2 (taskList s)\<rparr>"
    by (simp add: addTask_def)
  have up: "taskList (addTask i task2 s) = (taskList s)[k := (i, task2)]"
    by (simp add: eq replace_task_update [OF k])
  have gt: "getTaskById (addTask i task2 s) i = Some task2"
    by (simp add: eq getTaskById_def find_replace_task_same [OF f])
  have "length (taskList (addTask i task2 s)) = length (taskList s)" by (simp add: eq)
  moreover have "map fst (taskList (addTask i task2 s)) = map fst (taskList s)" by (simp add: eq)
  moreover have "trace (addTask i task2 s) = trace s" by simp
  moreover have "allocated (addTask i task2 s) = allocated s" by (simp add: eq)
  ultimately show ?thesis using k kn up gt by blast
qed

text \<open>
  Claim C2. From the empty list, after any sequence of operations (the two halves
  of a recovery interleaved freely with everything else) no two entries of the list
  share an id. An operation never calls a constructor for an id that has an entry
  when the operation starts, since \<open>buildConversation\<close> looks the id up before it
  constructs. So in a sequence that never removes the entry of an id (no \<open>kill\<close> of
  it, no \<open>clear\<close>) at most one task is ever constructed for that id, however many
  recoveries race.
\<close>

theorem taskList_one_entry_per_id:
  "distinct (map fst (taskList (run ops empty_registry)))
   \<and> (i \<in> ids s \<longrightarrow> constructions i (trace (step op s)) = constructions i (trace s))
   \<and> (list_all (\<lambda>op. \<not> removes i op) ops \<longrightarrow>
        constructions i (trace (run ops empty_registry)) \<le> 1)"
proof (intro conjI impI)
  show "distinct (map fst (taskList (run ops empty_registry)))" by (rule run_empty_distinct)
next
  assume "i \<in> ids s"
  then show "constructions i (trace (step op s)) = constructions i (trace s)"
    by (rule step_constructions_present)
next
  assume a: "list_all (\<lambda>op. \<not> removes i op) ops"
  have "built_once i (empty_registry :: 'a registry)"
    by (simp add: built_once_def empty_registry_def constructions_def)
  from run_built_once [OF this a] show "constructions i (trace (run ops empty_registry)) \<le> 1"
    by (simp add: built_once_def split: if_splits)
qed

text \<open>
  Claim C7, as amended. For an id with no entry and a type \<open>acp\<close> or \<open>codex\<close>, \<open>buildConversation\<close>
  makes one constructor call and appends the new task under the id. After that,
  through any sequence of operations that does not take the entry away or put
  another task under the id (no \<open>kill\<close> of the id, no \<open>clear\<close>, no \<open>addTask\<close> on
  the id), a call with the same id, whatever its type, returns that same task
  and changes nothing, and the number of constructor calls for the id stays one
  more than before. For an id with no entry and any other type the result is
  \<open>null\<close> and nothing changes.
\<close>

theorem buildConversation_once:
  "getTaskById s (conversation_id c) = None \<Longrightarrow>
   (supported (conversation_type c) \<longrightarrow>
      buildConversation c s =
        (Some (new_task c (allocated s)),
         s\<lparr>taskList := taskList s @ [(conversation_id c, new_task c (allocated s))],
           trace := trace s @ [New_task (new_task c (allocated s))],
           allocated := Suc (allocated s)\<rparr>)
      \<and> (\<forall>ops c'.
            list_all (\<lambda>op. \<not> removes (conversation_id c) op \<and> \<not> replaces (conversation_id c) op) ops
            \<and> conversation_id c' = conversation_id c \<longrightarrow>
            buildConversation c' (run ops (snd (buildConversation c s)))
              = (Some (new_task c (allocated s)), run ops (snd (buildConversation c s)))
            \<and> constructions (conversation_id c) (trace (run ops (snd (buildConversation c s))))
              = Suc (constructions (conversation_id c) (trace s))))
   \<and> (\<not> supported (conversation_type c) \<longrightarrow> buildConversation c s = (None, s))"
proof (intro conjI impI allI)
  assume n: "getTaskById s (conversation_id c) = None" and sup: "supported (conversation_type c)"
  show "buildConversation c s =
        (Some (new_task c (allocated s)),
         s\<lparr>taskList := taskList s @ [(conversation_id c, new_task c (allocated s))],
           trace := trace s @ [New_task (new_task c (allocated s))],
           allocated := Suc (allocated s)\<rparr>)"
    by (rule buildConversation_new [OF n sup])
next
  fix ops :: "'a op list" and c' :: "'a conversation"
  assume n: "getTaskById s (conversation_id c) = None" and sup: "supported (conversation_type c)"
    and a: "list_all (\<lambda>op. \<not> removes (conversation_id c) op \<and> \<not> replaces (conversation_id c) op) ops
            \<and> conversation_id c' = conversation_id c"
  let ?s1 = "snd (buildConversation c s)"
  from n have ni: "conversation_id c \<notin> ids s" by (simp add: getTaskById_None_ids)
  from buildConversation_getTaskById_new [OF ni sup]
  have g1: "getTaskById ?s1 (conversation_id c) = Some (new_task c (allocated s))" .
  from a have l: "list_all (\<lambda>op. \<not> removes (conversation_id c) op \<and> \<not> replaces (conversation_id c) op) ops"
    and ci: "conversation_id c' = conversation_id c" by blast+
  from run_keeps [OF g1 l] ci
  have "getTaskById (run ops ?s1) (conversation_id c') = Some (new_task c (allocated s))" by simp
  then show "buildConversation c' (run ops ?s1) = (Some (new_task c (allocated s)), run ops ?s1)"
    by (rule buildConversation_hit)
  have "constructions (conversation_id c) (trace ?s1) = Suc (constructions (conversation_id c) (trace s))"
    using ni sup by (simp add: buildConversation_state constructions_def)
  with run_constructions_present [OF g1 l]
  show "constructions (conversation_id c) (trace (run ops ?s1))
      = Suc (constructions (conversation_id c) (trace s))" by simp
next
  assume "getTaskById s (conversation_id c) = None" and "\<not> supported (conversation_type c)"
  then show "buildConversation c s = (None, s)" by (rule buildConversation_unsupported)
qed

lemmas registry_eval =
  empty_registry_def getTaskById_def buildConversation_def rollbackBuild_begin_def
  rollbackBuild_resume_def getTaskByIdRollbackBuild_def kill_def clear_def addTask_def
  splice1_def ids_def constructions_def task_conversation_id_def supported_def new_task_def
  history_reads_def conv_y_def conv_y_codex_def conv_w_def conv_gemini_def db_none_def
  db_only_def task_kill_ok_def task_kill_fails_def registry_y_def busy_ops_def race_ops_def
  Let_def

text \<open>The theorem \<open>getTaskByIdRollbackBuild_tiers\<close> at concrete inputs that satisfy its hypotheses.\<close>

theorem getTaskByIdRollbackBuild_tiers_witness:
  "getTaskById registry_y ''y'' = Some (ExternalTask 7)
   \<and> getTaskByIdRollbackBuild db_none None ''y'' registry_y = (Inr (Some (ExternalTask 7)), registry_y)
   \<and> getTaskById (empty_registry :: unit registry) ''y'' = None
   \<and> success (db_only conv_y ''y'') \<and> data (db_only conv_y ''y'') = Some conv_y
   \<and> fst (getTaskByIdRollbackBuild (db_only conv_y) (Some [conv_y_codex]) ''y'' empty_registry)
       = Inr (Some (AcpAgentManager 0 () ''y''))
   \<and> history_reads (trace (snd (getTaskByIdRollbackBuild (db_only conv_y) (Some [conv_y_codex]) ''y''
        empty_registry))) = 0
   \<and> data (db_none ''y'') = None
   \<and> find (\<lambda>item. conversation_id item = ''y'') [conv_w, conv_y_codex] = Some conv_y_codex
   \<and> fst (getTaskByIdRollbackBuild db_none (Some [conv_w, conv_y_codex]) ''y'' empty_registry)
       = Inr (Some (CodexAgentManager 0 () ''y''))
   \<and> find (\<lambda>item. conversation_id item = ''y'') [conv_w] = None
   \<and> fst (getTaskByIdRollbackBuild db_none (Some [conv_w]) ''y'' empty_registry)
       = Inl (Error ''Conversation not found'')
   \<and> fst (getTaskByIdRollbackBuild db_none None ''y'' empty_registry)
       = Inl (Error ''Conversation not found'')
   \<and> data (db_only conv_gemini ''g'') = Some conv_gemini
   \<and> \<not> supported (conversation_type conv_gemini)
   \<and> fst (getTaskByIdRollbackBuild (db_only conv_gemini) None ''g'' empty_registry) = Inr None
   \<and> find (\<lambda>item. conversation_id item = ''g'') [conv_gemini] = Some conv_gemini
   \<and> fst (getTaskByIdRollbackBuild db_none (Some [conv_gemini]) ''g'' empty_registry) = Inr None"
proof -
  have h1: "getTaskById registry_y ''y'' = Some (ExternalTask 7)"
    by (simp add: registry_eval)
  have h2: "getTaskById (empty_registry :: unit registry) ''y'' = None"
    by (simp add: registry_eval)
  have h3: "success (db_only conv_y ''y'')" "data (db_only conv_y ''y'') = Some conv_y"
    "conversation_id conv_y = ''y''" "supported (conversation_type conv_y)"
    by (simp_all add: registry_eval)
  have h4: "data (db_none ''y'') = None" by (simp add: registry_eval)
  have h5: "find (\<lambda>item. conversation_id item = ''y'') [conv_w, conv_y_codex] = Some conv_y_codex"
    "supported (conversation_type conv_y_codex)"
    by (simp_all add: registry_eval)
  have h6: "find (\<lambda>item. conversation_id item = ''y'') [conv_w] = None"
    by (simp add: registry_eval)
  from getTaskByIdRollbackBuild_tiers
    [of registry_y "''y''" "ExternalTask 7" db_none None conv_y "[]"] h1
  have c1: "getTaskByIdRollbackBuild db_none None ''y'' registry_y
      = (Inr (Some (ExternalTask 7)), registry_y)" by blast
  from getTaskByIdRollbackBuild_tiers
    [of empty_registry "''y''" "ExternalTask 7" "db_only conv_y" "Some [conv_y_codex]" conv_y "[]"]
    h2 h3
  have c2: "fst (getTaskByIdRollbackBuild (db_only conv_y) (Some [conv_y_codex]) ''y'' empty_registry)
       = Inr (Some (new_task conv_y (allocated (empty_registry :: unit registry))))"
    and c3: "history_reads (trace (snd (getTaskByIdRollbackBuild (db_only conv_y)
        (Some [conv_y_codex]) ''y'' empty_registry)))
        = history_reads (trace (empty_registry :: unit registry))"
    by blast+
  from getTaskByIdRollbackBuild_tiers
    [of empty_registry "''y''" "ExternalTask 7" db_none "Some [conv_w, conv_y_codex]" conv_y_codex
      "[conv_w, conv_y_codex]"] h2 h4 h5
  have c4: "fst (getTaskByIdRollbackBuild db_none (Some [conv_w, conv_y_codex]) ''y'' empty_registry)
       = Inr (Some (new_task conv_y_codex (allocated (empty_registry :: unit registry))))"
    by blast
  from getTaskByIdRollbackBuild_tiers
    [of empty_registry "''y''" "ExternalTask 7" db_none "Some [conv_w]" conv_y "[]"] h2 h4 h6
  have c5: "fst (getTaskByIdRollbackBuild db_none (Some [conv_w]) ''y'' empty_registry)
       = Inl (Error ''Conversation not found'')" by blast
  from getTaskByIdRollbackBuild_tiers
    [of empty_registry "''y''" "ExternalTask 7" db_none None conv_y "[]"] h2 h4
  have c6: "fst (getTaskByIdRollbackBuild db_none None ''y'' empty_registry)
       = Inl (Error ''Conversation not found'')" by blast
  have e: "new_task conv_y (allocated (empty_registry :: unit registry)) = AcpAgentManager 0 () ''y''"
    "new_task conv_y_codex (allocated (empty_registry :: unit registry)) = CodexAgentManager 0 () ''y''"
    "history_reads (trace (empty_registry :: unit registry)) = 0"
    by (simp_all add: registry_eval)
  have g1: "getTaskById (empty_registry :: unit registry) ''g'' = None"
    "success (db_only conv_gemini ''g'')" "data (db_only conv_gemini ''g'') = Some conv_gemini"
    "conversation_id conv_gemini = ''g''" "\<not> supported (conversation_type conv_gemini)"
    "data (db_none ''g'') = None"
    "find (\<lambda>item. conversation_id item = ''g'') [conv_gemini] = Some conv_gemini"
    by (simp_all add: registry_eval)
  from getTaskByIdRollbackBuild_tiers
    [of empty_registry "''g''" "ExternalTask 7" "db_only conv_gemini" None conv_gemini "[]"]
    g1(1-5)
  have "getTaskByIdRollbackBuild (db_only conv_gemini) None ''g'' empty_registry
      = (Inr None, empty_registry\<lparr>trace := trace empty_registry @ [Db_getConversation ''g'']\<rparr>)"
    by blast
  then have c7: "fst (getTaskByIdRollbackBuild (db_only conv_gemini) None ''g'' empty_registry)
      = Inr None" by simp
  from getTaskByIdRollbackBuild_tiers
    [of empty_registry "''g''" "ExternalTask 7" db_none "Some [conv_gemini]" conv_gemini
      "[conv_gemini]"]
    g1(1,5,6,7)
  have "getTaskByIdRollbackBuild db_none (Some [conv_gemini]) ''g'' empty_registry
      = (Inr None, empty_registry\<lparr>trace := trace empty_registry
           @ [Db_getConversation ''g'', ProcessChat_get ''chat.history'']\<rparr>)"
    by blast
  then have c8: "fst (getTaskByIdRollbackBuild db_none (Some [conv_gemini]) ''g'' empty_registry)
      = Inr None" by simp
  show ?thesis
    using h1 h2 h3(1,2) h4 h5(1) h6 c1 c2 c3 c4 c5 c6 c7 c8 g1(3,5,7) unfolding e by blast
qed

text \<open>
  Claim C1 as stated fails for a record whose type is neither \<open>acp\<close> nor \<open>codex\<close>:
  the database has a record for the id, and the promise resolves with \<open>null\<close>, not
  with a task; nothing is stored under the id.
\<close>

theorem null_for_other_type_counterexample:
  "getTaskById (empty_registry :: unit registry) ''g'' = None
   \<and> success (db_only conv_gemini ''g'')
   \<and> data (db_only conv_gemini ''g'') = Some conv_gemini
   \<and> conversation_id conv_gemini = ''g''
   \<and> conversation_type conv_gemini = ''gemini''
   \<and> fst (getTaskByIdRollbackBuild (db_only conv_gemini) None ''g'' empty_registry) = Inr None
   \<and> taskList (snd (getTaskByIdRollbackBuild (db_only conv_gemini) None ''g'' empty_registry)) = []"
  by (simp add: registry_eval)

text \<open>The theorem \<open>taskList_one_entry_per_id\<close> at concrete inputs that satisfy its hypotheses.\<close>

theorem taskList_one_entry_per_id_witness:
  "distinct (map fst (taskList (run race_ops empty_registry)))
   \<and> ''y'' \<in> ids registry_y
   \<and> constructions ''y'' (trace (step (Op_buildConversation conv_y) registry_y))
       = constructions ''y'' (trace registry_y)
   \<and> list_all (\<lambda>op. \<not> removes ''y'' op) race_ops
   \<and> constructions ''y'' (trace (run race_ops empty_registry)) \<le> 1
   \<and> taskList (run race_ops empty_registry) = [(''y'', AcpAgentManager 0 () ''y'')]"
proof -
  have h1: "''y'' \<in> ids registry_y" by (simp add: registry_eval)
  have h2: "list_all (\<lambda>op. \<not> removes ''y'' op) race_ops" by (simp add: race_ops_def)
  have e: "taskList (run race_ops empty_registry) = [(''y'', AcpAgentManager 0 () ''y'')]"
    by (simp add: registry_eval)
  from taskList_one_entry_per_id [of race_ops "''y''" registry_y "Op_buildConversation conv_y"]
    h1 h2 e
  show ?thesis by blast
qed

text \<open>
  Claim C3 as stated fails: with one entry whose task throws from \<open>kill()\<close>, both
  \<open>kill(id)\<close> and \<open>clear()\<close> throw and the entry stays.
\<close>

theorem kill_throws_counterexample:
  "getTaskById registry_y ''y'' = Some (ExternalTask 7)
   \<and> fst (kill task_kill_fails ''y'' registry_y) = Inl (Error ''kill failed'')
   \<and> getTaskById (snd (kill task_kill_fails ''y'' registry_y)) ''y'' = Some (ExternalTask 7)
   \<and> fst (clear task_kill_fails registry_y) = Inl (Error ''kill failed'')
   \<and> taskList (snd (clear task_kill_fails registry_y)) = [(''y'', ExternalTask 7)]"
  by (simp add: registry_eval)

text \<open>The theorem \<open>kill_clear_outcomes\<close> at concrete inputs that satisfy its hypotheses.\<close>

theorem kill_clear_outcomes_witness:
  "registry_y = run [Op_addTask ''y'' (ExternalTask 7)] empty_registry
   \<and> getTaskById registry_y ''y'' = Some (ExternalTask 7)
   \<and> task_kill_ok (ExternalTask 7) = None
   \<and> fst (kill task_kill_ok ''y'' registry_y) = Inr ()
   \<and> ''y'' \<notin> ids (snd (kill task_kill_ok ''y'' registry_y))
   \<and> task_kill_fails (ExternalTask 7) = Some (Error ''kill failed'')
   \<and> kill task_kill_fails ''y'' registry_y
       = (Inl (Error ''kill failed''), registry_y\<lparr>trace := [Task_kill (ExternalTask 7)]\<rparr>)
   \<and> list_all (\<lambda>item. task_kill_ok (snd item) = None) (taskList registry_y)
   \<and> clear task_kill_ok registry_y
       = (Inr (), registry_y\<lparr>taskList := [], trace := [Task_kill (ExternalTask 7)]\<rparr>)
   \<and> \<not> list_all (\<lambda>item. task_kill_fails (snd item) = None) (taskList registry_y)
   \<and> taskList (snd (clear task_kill_fails registry_y)) = taskList registry_y"
proof -
  have h0: "registry_y = run [Op_addTask ''y'' (ExternalTask 7)] empty_registry"
    by (simp add: registry_y_def)
  have h1: "getTaskById registry_y ''y'' = Some (ExternalTask 7)" by (simp add: registry_eval)
  have h2: "task_kill_ok (ExternalTask 7) = None"
    "task_kill_fails (ExternalTask 7) = Some (Error ''kill failed'')"
    by (simp_all add: registry_eval)
  have h3: "list_all (\<lambda>item. task_kill_ok (snd item) = None) (taskList registry_y)"
    "\<not> list_all (\<lambda>item. task_kill_fails (snd item) = None) (taskList registry_y)"
    by (simp_all add: registry_eval)
  have e: "trace registry_y = []" "taskList registry_y = [(''y'', ExternalTask 7)]"
    by (simp_all add: registry_eval)
  from kill_clear_outcomes [of registry_y "[Op_addTask ''y'' (ExternalTask 7)]" "''y''"
      "ExternalTask 7" task_kill_ok "Error ''kill failed''"] h0 h1 h2 h3
  have c1: "fst (kill task_kill_ok ''y'' registry_y) = Inr ()"
    "''y'' \<notin> ids (snd (kill task_kill_ok ''y'' registry_y))"
    "clear task_kill_ok registry_y =
        (Inr (), registry_y\<lparr>taskList := [],
           trace := trace registry_y @ map (\<lambda>item. Task_kill (snd item)) (taskList registry_y)\<rparr>)"
    by blast+
  from kill_clear_outcomes [of registry_y "[Op_addTask ''y'' (ExternalTask 7)]" "''y''"
      "ExternalTask 7" task_kill_fails "Error ''kill failed''"] h1 h2 h3
  have c2: "kill task_kill_fails ''y'' registry_y
       = (Inl (Error ''kill failed''),
          registry_y\<lparr>trace := trace registry_y @ [Task_kill (ExternalTask 7)]\<rparr>)"
    "taskList (snd (clear task_kill_fails registry_y)) = taskList registry_y"
    by blast+
  show ?thesis using h0 h1 h2 h3 c1 c2 by (simp add: e)
qed

text \<open>The theorem \<open>kill_idempotent\<close> at concrete inputs that satisfy its hypotheses.\<close>

theorem kill_idempotent_witness:
  "getTaskById (empty_registry :: unit registry) ''y'' = None
   \<and> kill task_kill_fails ''y'' empty_registry = (Inr (), empty_registry)
   \<and> registry_y = run [Op_addTask ''y'' (ExternalTask 7)] empty_registry
   \<and> getTaskById registry_y ''y'' = Some (ExternalTask 7)
   \<and> task_kill_ok (ExternalTask 7) = None
   \<and> fst (kill task_kill_ok ''y'' registry_y) = Inr ()
   \<and> getTaskById (snd (kill task_kill_ok ''y'' registry_y)) ''y'' = None
   \<and> kill task_kill_fails ''y'' (snd (kill task_kill_ok ''y'' registry_y))
       = (Inr (), snd (kill task_kill_ok ''y'' registry_y))
   \<and> task_kill_fails (ExternalTask 7) = Some (Error ''kill failed'')
   \<and> fst (kill task_kill_fails ''y'' (snd (kill task_kill_fails ''y'' registry_y)))
       = Inl (Error ''kill failed'')
   \<and> taskList (snd (kill task_kill_fails ''y'' (snd (kill task_kill_fails ''y'' registry_y))))
       = taskList registry_y"
proof -
  have h0: "registry_y = run [Op_addTask ''y'' (ExternalTask 7)] empty_registry"
    by (simp add: registry_y_def)
  have h1: "getTaskById registry_y ''y'' = Some (ExternalTask 7)" by (simp add: registry_eval)
  have h2: "task_kill_ok (ExternalTask 7) = None" by (simp add: registry_eval)
  have h3: "getTaskById (empty_registry :: unit registry) ''y'' = None"
    by (simp add: registry_eval)
  from kill_idempotent [of empty_registry "''y''" task_kill_fails "[]" "ExternalTask 7" task_kill_fails] h3
  have c1: "kill task_kill_fails ''y'' empty_registry = (Inr (), empty_registry)" by blast
  from kill_idempotent [of registry_y "''y''" task_kill_ok "[Op_addTask ''y'' (ExternalTask 7)]"
      "ExternalTask 7" task_kill_fails] h0 h1 h2
  have c2: "fst (kill task_kill_ok ''y'' registry_y) = Inr ()"
    "getTaskById (snd (kill task_kill_ok ''y'' registry_y)) ''y'' = None"
    "kill task_kill_fails ''y'' (snd (kill task_kill_ok ''y'' registry_y))
       = (Inr (), snd (kill task_kill_ok ''y'' registry_y))"
    by blast+
  have h4: "task_kill_fails (ExternalTask 7) = Some (Error ''kill failed'')"
    by (simp add: registry_eval)
  from kill_idempotent [of registry_y "''y''" task_kill_fails "[]" "ExternalTask 7" task_kill_ok
      "Error ''kill failed''"] h1 h4
  have c3: "fst (kill task_kill_fails ''y'' (snd (kill task_kill_fails ''y'' registry_y)))
       = Inl (Error ''kill failed'')"
    "taskList (snd (kill task_kill_fails ''y'' (snd (kill task_kill_fails ''y'' registry_y))))
       = taskList registry_y"
    by blast+
  show ?thesis using h0 h1 h2 h3 h4 c1 c2 c3 by blast
qed

text \<open>
  Claim C9 as stated fails when the stored task's \<open>kill()\<close> throws: \<open>kill(id)\<close>
  throws, once and twice, and the entry is still there after each call.
\<close>

theorem kill_twice_throws_counterexample:
  "getTaskById registry_y ''y'' = Some (ExternalTask 7)
   \<and> fst (kill task_kill_fails ''y'' registry_y) = Inl (Error ''kill failed'')
   \<and> getTaskById (snd (kill task_kill_fails ''y'' registry_y)) ''y'' = Some (ExternalTask 7)
   \<and> fst (kill task_kill_fails ''y'' (snd (kill task_kill_fails ''y'' registry_y)))
       = Inl (Error ''kill failed'')
   \<and> getTaskById (snd (kill task_kill_fails ''y'' (snd (kill task_kill_fails ''y'' registry_y)))) ''y''
       = Some (ExternalTask 7)"
  by (simp add: registry_eval)

text \<open>The theorem \<open>addTask_replaces_in_place\<close> at concrete inputs that satisfy its hypotheses.\<close>

theorem addTask_replaces_in_place_witness:
  "getTaskById registry_y ''y'' = Some (ExternalTask 7)
   \<and> length (taskList (addTask ''y'' (ExternalTask 8) registry_y)) = length (taskList registry_y)
   \<and> map fst (taskList (addTask ''y'' (ExternalTask 8) registry_y)) = map fst (taskList registry_y)
   \<and> getTaskById (addTask ''y'' (ExternalTask 8) registry_y) ''y'' = Some (ExternalTask 8)
   \<and> trace (addTask ''y'' (ExternalTask 8) registry_y) = trace registry_y
   \<and> taskList (addTask ''y'' (ExternalTask 8) registry_y) = [(''y'', ExternalTask 8)]"
proof -
  have h1: "getTaskById registry_y ''y'' = Some (ExternalTask 7)" by (simp add: registry_eval)
  have e: "taskList (addTask ''y'' (ExternalTask 8) registry_y) = [(''y'', ExternalTask 8)]"
    by (simp add: registry_eval)
  from addTask_replaces_in_place [OF h1, of "ExternalTask 8"] h1 e show ?thesis by blast
qed

text \<open>The theorem \<open>buildConversation_once\<close> at concrete inputs that satisfy its hypotheses.\<close>

theorem buildConversation_once_witness:
  "getTaskById (empty_registry :: unit registry) (conversation_id conv_y) = None
   \<and> supported (conversation_type conv_y)
   \<and> fst (buildConversation conv_y empty_registry) = Some (AcpAgentManager 0 () ''y'')
   \<and> list_all (\<lambda>op. \<not> removes (conversation_id conv_y) op \<and> \<not> replaces (conversation_id conv_y) op)
        busy_ops
   \<and> conversation_id conv_y_codex = conversation_id conv_y
   \<and> buildConversation conv_y_codex (run busy_ops (snd (buildConversation conv_y empty_registry)))
       = (Some (AcpAgentManager 0 () ''y''),
          run busy_ops (snd (buildConversation conv_y empty_registry)))
   \<and> constructions ''y'' (trace (run busy_ops (snd (buildConversation conv_y empty_registry)))) = 1
   \<and> getTaskById (empty_registry :: unit registry) (conversation_id conv_gemini) = None
   \<and> \<not> supported (conversation_type conv_gemini)
   \<and> buildConversation conv_gemini empty_registry = (None, empty_registry)"
proof -
  have h1: "getTaskById (empty_registry :: unit registry) (conversation_id conv_y) = None"
    "supported (conversation_type conv_y)"
    "conversation_id conv_y_codex = conversation_id conv_y"
    by (simp_all add: registry_eval)
  have h2: "list_all (\<lambda>op. \<not> removes (conversation_id conv_y) op
      \<and> \<not> replaces (conversation_id conv_y) op) busy_ops"
    by (simp add: busy_ops_def conv_y_def)
  have h3: "getTaskById (empty_registry :: unit registry) (conversation_id conv_gemini) = None"
    "\<not> supported (conversation_type conv_gemini)"
    by (simp_all add: registry_eval)
  have e: "new_task conv_y (allocated (empty_registry :: unit registry)) = AcpAgentManager 0 () ''y''"
    "constructions (conversation_id conv_y) (trace (empty_registry :: unit registry)) = 0"
    "conversation_id conv_y = ''y''"
    "constructions ''y'' (trace (empty_registry :: unit registry)) = 0"
    by (simp_all add: registry_eval)
  note b = buildConversation_once [OF h1(1), THEN conjunct1, rule_format, OF h1(2)]
  from b [THEN conjunct1]
  have c1: "fst (buildConversation conv_y empty_registry)
      = Some (new_task conv_y (allocated (empty_registry :: unit registry)))" by simp
  from b [THEN conjunct2]
  have c2: "\<forall>ops c'.
            list_all (\<lambda>op. \<not> removes (conversation_id conv_y) op
              \<and> \<not> replaces (conversation_id conv_y) op) ops
            \<and> conversation_id c' = conversation_id conv_y \<longrightarrow>
            buildConversation c' (run ops (snd (buildConversation conv_y empty_registry)))
              = (Some (new_task conv_y (allocated (empty_registry :: unit registry))),
                 run ops (snd (buildConversation conv_y empty_registry)))
            \<and> constructions (conversation_id conv_y)
                 (trace (run ops (snd (buildConversation conv_y empty_registry))))
              = Suc (constructions (conversation_id conv_y) (trace (empty_registry :: unit registry)))"
    by blast
  from c2 h2 h1(3)
  have c3: "buildConversation conv_y_codex (run busy_ops (snd (buildConversation conv_y empty_registry)))
       = (Some (new_task conv_y (allocated (empty_registry :: unit registry))),
          run busy_ops (snd (buildConversation conv_y empty_registry)))"
    and c4: "constructions (conversation_id conv_y)
          (trace (run busy_ops (snd (buildConversation conv_y empty_registry))))
       = Suc (constructions (conversation_id conv_y) (trace (empty_registry :: unit registry)))"
    by blast+
  from buildConversation_once [OF h3(1)] h3(2)
  have c5: "buildConversation conv_gemini empty_registry = (None, empty_registry)" by blast
  show ?thesis using h1 h2 h3 c1 c3 c4 c5 unfolding e by simp
qed

text \<open>
  Claim C7 as stated fails: with no \<open>kill\<close> of the id in between, \<open>addTask\<close> on the
  id puts another task in the entry, and \<open>clear\<close> takes the entry away, so the next
  call with the id returns another task than the first.
\<close>

theorem replaced_without_kill_counterexample:
  "fst (buildConversation conv_y empty_registry) = Some (AcpAgentManager 0 () ''y'')
   \<and> fst (buildConversation conv_y
        (addTask ''y'' (ExternalTask 8) (snd (buildConversation conv_y empty_registry))))
       = Some (ExternalTask 8)
   \<and> trace (addTask ''y'' (ExternalTask 8) (snd (buildConversation conv_y empty_registry)))
       = [New_task (AcpAgentManager 0 () ''y'')]
   \<and> fst (buildConversation conv_y
        (snd (clear task_kill_ok (snd (buildConversation conv_y empty_registry)))))
       = Some (AcpAgentManager 1 () ''y'')"
  by (simp add: registry_eval)

section \<open>Properties of the tool registry\<close>

lemma new_ToolRegistry_tools:
  "tools new_ToolRegistry =
    [(''shell_exec'', shell_exec), (''agent_browser'', agent_browser),
     (''file_operations'', file_operations), (''web_search'', web_search)]"
  by (simp add: new_ToolRegistry_def initializeBuiltinTools_def registerBuiltinTool_def
      eventTypeMapping_set_def shell_exec_def agent_browser_def file_operations_def web_search_def)

lemma new_ToolRegistry_mcpTools: "mcpTools new_ToolRegistry = []"
  by (simp add: new_ToolRegistry_def initializeBuiltinTools_def registerBuiltinTool_def
      eventTypeMapping_set_def)

lemma new_ToolRegistry_eventTypeMapping:
  "eventTypeMapping new_ToolRegistry =
    [(EXEC_COMMAND_BEGIN, [''shell_exec'']), (EXEC_COMMAND_OUTPUT_DELTA, [''shell_exec'']),
     (EXEC_COMMAND_END, [''shell_exec'']), (APPLY_PATCH_APPROVAL_REQUEST, [''file_operations'']),
     (PATCH_APPLY_BEGIN, [''file_operations'']), (PATCH_APPLY_END, [''file_operations'']),
     (WEB_SEARCH_BEGIN, [''web_search'']), (WEB_SEARCH_END, [''web_search''])]"
  by (simp add: new_ToolRegistry_def initializeBuiltinTools_def registerBuiltinTool_def
      eventTypeMapping_set_def)















lemma filter_Cons_find: "filter P xs = y # zs \<Longrightarrow> find P xs = Some y"
  by (induction xs) (auto split: if_splits)

lemma sort_key_hd:
  assumes "xs \<noteq> []"
  shows "hd (sort_key f xs) \<in> set xs"
    and "\<forall>x \<in> set xs. f (hd (sort_key f xs)) \<le> f x"
    and "find (\<lambda>x. f x = f (hd (sort_key f xs))) xs = Some (hd (sort_key f xs))"
proof -
  let ?ys = "sort_key f xs"
  from assms have ne: "?ys \<noteq> []" by (metis length_sort length_0_conv)
  then obtain y ys where ys: "?ys = y # ys" by (cases ?ys) auto
  have "hd ?ys \<in> set ?ys" using ne by (rule hd_in_set)
  then show "hd ?ys \<in> set xs" by (simp only: set_sort)
  have "sorted (map f ?ys)" by simp
  then have "\<forall>x \<in> set ?ys. f (hd ?ys) \<le> f x" unfolding ys by auto
  then show "\<forall>x \<in> set xs. f (hd ?ys) \<le> f x" by simp
  have "filter (\<lambda>x. f x = f y) xs = filter (\<lambda>x. f x = f y) ?ys"
    by (simp add: sort_key_stable)
  also have "\<dots> = y # filter (\<lambda>x. f x = f y) ys" unfolding ys by simp
  finally have "filter (\<lambda>x. f x = f y) xs = y # filter (\<lambda>x. f x = f y) ys" .
  then have "find (\<lambda>x. f x = f y) xs = Some y"
    by (rule filter_Cons_find)
  then show "find (\<lambda>x. f x = f (hd ?ys)) xs = Some (hd ?ys)" unfolding ys by simp
qed

lemma resolve_other:
  "\<not> mcp_event e \<Longrightarrow>
   resolveToolForEvent p r e d =
     (case sort_key priority (survivors p r e) of tool # rest \<Rightarrow> tool | [] \<Rightarrow> getDefaultTool e)"
  by (simp add: resolveToolForEvent_def mcp_event_def Let_def)

lemma resolve_other_hd:
  assumes "\<not> mcp_event e" and "survivors p r e \<noteq> []"
  shows "resolveToolForEvent p r e d = hd (sort_key priority (survivors p r e))"
proof -
  from assms(2) have "sort_key priority (survivors p r e) \<noteq> []"
    by (metis length_sort length_0_conv)
  then show ?thesis using resolve_other [OF assms(1)] by (simp split: list.splits)
qed

lemma set_map_filter_iff: "y \<in> set (List.map_filter f xs) \<longleftrightarrow> (\<exists>x \<in> set xs. f x = Some y)"
  by (induction xs) (auto split: option.splits)

lemma survivors_member:
  "t \<in> set (survivors p r e)
    \<longleftrightarrow> (\<exists>i \<in> set (candidateIds r e). getTool r i = Some t \<and> isToolAvailable p t)"
  by (auto simp: survivors_def set_map_filter_iff)

lemma resolve_by_priority_survivors:
  "\<not> mcp_event e \<Longrightarrow>
   (survivors p r e = [] \<longrightarrow>
      resolveToolForEvent p r e d = getDefaultTool e
      \<and> tool_id (resolveToolForEvent p r e d) = ''unknown''
      \<and> priority (resolveToolForEvent p r e d) = 999
      \<and> capabilities (resolveToolForEvent p r e d) =
          \<lparr>supportsStreaming = False, supportsImages = False, supportsCharts = False,
           supportsMarkdown = False, supportsInteraction = False,
           outputFormats = [Format_TEXT]\<rparr>)
   \<and> (survivors p r e \<noteq> [] \<longrightarrow>
      resolveToolForEvent p r e d \<in> set (survivors p r e)
      \<and> (\<forall>t \<in> set (survivors p r e). priority (resolveToolForEvent p r e d) \<le> priority t)
      \<and> find (\<lambda>t. priority t = priority (resolveToolForEvent p r e d)) (survivors p r e)
          = Some (resolveToolForEvent p r e d))
   \<and> (\<forall>a b. (survivors p r e = [a, b] \<or> survivors p r e = [b, a])
          \<and> priority a = 10 \<and> priority b = 20 \<longrightarrow> resolveToolForEvent p r e d = a)
   \<and> (\<forall>t. t \<in> set (survivors p r e)
          \<longleftrightarrow> (\<exists>i \<in> set (candidateIds r e). getTool r i = Some t \<and> isToolAvailable p t))"
proof (intro conjI impI allI)
  assume n: "\<not> mcp_event e" and "survivors p r e = []"
  then show u: "resolveToolForEvent p r e d = getDefaultTool e"
    by (simp add: resolve_other)
  show "tool_id (resolveToolForEvent p r e d) = ''unknown''"
    by (simp add: u getDefaultTool_def)
  show "priority (resolveToolForEvent p r e d) = 999"
    by (simp add: u getDefaultTool_def)
  show "capabilities (resolveToolForEvent p r e d) =
          \<lparr>supportsStreaming = False, supportsImages = False, supportsCharts = False,
           supportsMarkdown = False, supportsInteraction = False,
           outputFormats = [Format_TEXT]\<rparr>"
    by (simp add: u getDefaultTool_def)
next
  assume n: "\<not> mcp_event e" and ne: "survivors p r e \<noteq> []"
  note h = resolve_other_hd [OF n ne, of d]
  show "resolveToolForEvent p r e d \<in> set (survivors p r e)"
    unfolding h by (rule sort_key_hd(1) [OF ne])
  show "\<forall>t \<in> set (survivors p r e). priority (resolveToolForEvent p r e d) \<le> priority t"
    unfolding h by (rule sort_key_hd(2) [OF ne])
  show "find (\<lambda>t. priority t = priority (resolveToolForEvent p r e d)) (survivors p r e)
          = Some (resolveToolForEvent p r e d)"
    unfolding h by (rule sort_key_hd(3) [OF ne])
next
  fix a b
  assume n: "\<not> mcp_event e"
    and a: "(survivors p r e = [a, b] \<or> survivors p r e = [b, a])
          \<and> priority a = 10 \<and> priority b = 20"
  then have "sort_key priority (survivors p r e) = [a, b]" by auto
  with resolve_other [OF n, of p r d] show "resolveToolForEvent p r e d = a" by simp
next
  fix t
  show "t \<in> set (survivors p r e)
      \<longleftrightarrow> (\<exists>i \<in> set (candidateIds r e). getTool r i = Some t \<and> isToolAvailable p t)"
    by (rule survivors_member)
qed

lemma survivors_pipeline:
  "survivors p r e =
    filter (\<lambda>tool. p \<in> set (platforms (availability tool)))
      (List.map_filter
        (\<lambda>i. case map_of (tools r) i of Some tool \<Rightarrow> Some tool | None \<Rightarrow> map_of (mcpTools r) i)
        (case map_of (eventTypeMapping r) e of Some l \<Rightarrow> l | None \<Rightarrow> []))"
proof -
  have "getTool r = (\<lambda>i. case map_of (tools r) i of Some tool \<Rightarrow> Some tool
      | None \<Rightarrow> map_of (mcpTools r) i)"
    by (simp add: getTool_def fun_eq_iff)
  moreover have "isToolAvailable p = (\<lambda>tool. p \<in> set (platforms (availability tool)))"
    by (simp add: isToolAvailable_def fun_eq_iff)
  ultimately show ?thesis by (simp add: survivors_def candidateIds_def)
qed

text \<open>
  Claim C4. For an event type other than the two MCP tool-call types, let \<open>cands\<close>
  be the cands the table \<open>eventTypeMapping\<close> gives for the type (none when it has no
  entry), \<open>found\<close> the descriptors these cands have in \<open>tools\<close> or, failing that, in
  \<open>mcpTools\<close>, in the order of \<open>cands\<close>, and \<open>left\<close> those of \<open>found\<close> whose platform
  list has the current platform. If \<open>left\<close> is empty the result is the \<open>unknown\<close>
  descriptor, with priority 999 and every capability flag false. Otherwise the
  result is a member of \<open>left\<close>, no member has a smaller priority, and among
  those of the same priority it is the first. With two left, of priorities 10 and
  20 in either order, the result is the one of priority 10.
\<close>

theorem resolveToolForEvent_by_priority:
  "e \<noteq> MCP_TOOL_CALL_BEGIN \<Longrightarrow> e \<noteq> MCP_TOOL_CALL_END \<Longrightarrow>
   cands = (case map_of (eventTypeMapping r) e of Some l \<Rightarrow> l | None \<Rightarrow> []) \<Longrightarrow>
   found = List.map_filter
     (\<lambda>i. case map_of (tools r) i of Some tool \<Rightarrow> Some tool | None \<Rightarrow> map_of (mcpTools r) i) cands \<Longrightarrow>
   left = filter (\<lambda>tool. p \<in> set (platforms (availability tool))) found \<Longrightarrow>
   (left = [] \<longrightarrow>
      resolveToolForEvent p r e d = getDefaultTool e
      \<and> tool_id (resolveToolForEvent p r e d) = ''unknown''
      \<and> priority (resolveToolForEvent p r e d) = 999
      \<and> capabilities (resolveToolForEvent p r e d) =
          \<lparr>supportsStreaming = False, supportsImages = False, supportsCharts = False,
           supportsMarkdown = False, supportsInteraction = False,
           outputFormats = [Format_TEXT]\<rparr>)
   \<and> (left \<noteq> [] \<longrightarrow>
      resolveToolForEvent p r e d \<in> set left
      \<and> (\<forall>t \<in> set left. priority (resolveToolForEvent p r e d) \<le> priority t)
      \<and> find (\<lambda>t. priority t = priority (resolveToolForEvent p r e d)) left
          = Some (resolveToolForEvent p r e d))
   \<and> (\<forall>a b. (left = [a, b] \<or> left = [b, a])
          \<and> priority a = 10 \<and> priority b = 20 \<longrightarrow> resolveToolForEvent p r e d = a)
   \<and> (\<forall>t. t \<in> set left
          \<longleftrightarrow> (\<exists>i \<in> set cands.
                (map_of (tools r) i = Some t
                 \<or> map_of (tools r) i = None \<and> map_of (mcpTools r) i = Some t)
                \<and> p \<in> set (platforms (availability t))))"
proof -
  assume e: "e \<noteq> MCP_TOOL_CALL_BEGIN" "e \<noteq> MCP_TOOL_CALL_END"
    and cands: "cands = (case map_of (eventTypeMapping r) e of Some l \<Rightarrow> l | None \<Rightarrow> [])"
    and found: "found = List.map_filter
      (\<lambda>i. case map_of (tools r) i of Some tool \<Rightarrow> Some tool | None \<Rightarrow> map_of (mcpTools r) i) cands"
    and left: "left = filter (\<lambda>tool. p \<in> set (platforms (availability tool))) found"
  from e have n: "\<not> mcp_event e" by (simp add: mcp_event_def)
  have l: "survivors p r e = left" unfolding left found cands by (rule survivors_pipeline)
  have i: "candidateIds r e = cands" unfolding cands by (simp add: candidateIds_def)
  have m: "(getTool r i = Some t \<and> isToolAvailable p t)
      \<longleftrightarrow> ((map_of (tools r) i = Some t
            \<or> map_of (tools r) i = None \<and> map_of (mcpTools r) i = Some t)
          \<and> p \<in> set (platforms (availability t)))" for i t
    by (auto simp: getTool_def isToolAvailable_def split: option.splits)
  from resolve_by_priority_survivors [OF n, of p r d] show ?thesis
    unfolding l i m .
qed







lemma builtin_priorities:
  "list_all (\<lambda>entry. priority (snd entry) \<le> 30) (tools new_ToolRegistry)"
  by (simp add: new_ToolRegistry_tools shell_exec_def agent_browser_def file_operations_def
      web_search_def)




lemma inferCategory_cascade:
  "inferCategory toLowerCase mcpTool =
    (if search_rule toLowerCase mcpTool then SEARCH
     else if name_has toLowerCase mcpTool [''file'', ''read'', ''write'', ''edit''] then FILE_OPS
     else if name_has toLowerCase mcpTool [''exec'', ''run'', ''command'', ''shell''] then EXECUTION
     else if name_has toLowerCase mcpTool [''chart'', ''plot'', ''analyze'', ''graph''] then ANALYSIS
     else if name_has toLowerCase mcpTool [''http'', ''api'', ''request'', ''fetch''] then COMMUNICATION
     else CUSTOM)"
proof -
  have "string_includes [] ''search'' = False"
    by (simp add: string_includes_def)
  then have d: "description_has toLowerCase mcpTool ''search''
    = string_includes (case description mcpTool of None \<Rightarrow> [] | Some d \<Rightarrow> toLowerCase d) ''search''"
    by (simp add: description_has_def split: option.splits)
  show ?thesis
    unfolding inferCategory_def Let_def search_rule_def name_has_def d
    by (simp only: list_ex_Nil_iff list_ex_Cons_iff simp_thms disj_assoc)
qed

text \<open>
  Claim C8, as amended. \<open>registerMcpTool\<close> stores the adapted descriptor under the
  key \<open>serverName/name\<close>, which is also its id. Its priority is 100, greater than
  that of each builtin descriptor of the constructor. Its category comes from the
  lower-cased name, and for \<open>search\<close> alone also from the lower-cased description,
  by the first rule that applies: name contains \<open>search\<close>, \<open>find\<close> or \<open>query\<close>, or
  description contains \<open>search\<close>: Search; name contains \<open>file\<close>, \<open>read\<close>, \<open>write\<close>
  or \<open>edit\<close>: FileOps; \<open>exec\<close>, \<open>run\<close>, \<open>command\<close> or \<open>shell\<close>: Execution; \<open>chart\<close>,
  \<open>plot\<close>, \<open>analyze\<close> or \<open>graph\<close>: Analysis; \<open>http\<close>, \<open>api\<close>, \<open>request\<close> or \<open>fetch\<close>:
  Communication; otherwise Custom. A string contains a keyword when the keyword
  is a contiguous part of it. This holds whatever function \<open>toLowerCase\<close> is.
\<close>

theorem registerMcpTool_descriptor:
  "tool_id (adaptMcpTool toLowerCase mcpTool) = serverName mcpTool @ ''/'' @ info_name mcpTool
   \<and> map_of (mcpTools (registerMcpTool toLowerCase mcpTool r)) (serverName mcpTool @ ''/'' @ info_name mcpTool)
       = Some (adaptMcpTool toLowerCase mcpTool)
   \<and> priority (adaptMcpTool toLowerCase mcpTool) = 100
   \<and> list_all (\<lambda>entry. priority (snd entry) < priority (adaptMcpTool toLowerCase mcpTool))
       (tools new_ToolRegistry)
   \<and> (search_rule toLowerCase mcpTool \<longrightarrow> category (adaptMcpTool toLowerCase mcpTool) = SEARCH)
   \<and> (\<not> search_rule toLowerCase mcpTool \<longrightarrow>
        (name_has toLowerCase mcpTool [''file'', ''read'', ''write'', ''edit''] \<longrightarrow>
           category (adaptMcpTool toLowerCase mcpTool) = FILE_OPS)
      \<and> (\<not> name_has toLowerCase mcpTool [''file'', ''read'', ''write'', ''edit''] \<longrightarrow>
          (name_has toLowerCase mcpTool [''exec'', ''run'', ''command'', ''shell''] \<longrightarrow>
             category (adaptMcpTool toLowerCase mcpTool) = EXECUTION)
        \<and> (\<not> name_has toLowerCase mcpTool [''exec'', ''run'', ''command'', ''shell''] \<longrightarrow>
            (name_has toLowerCase mcpTool [''chart'', ''plot'', ''analyze'', ''graph''] \<longrightarrow>
               category (adaptMcpTool toLowerCase mcpTool) = ANALYSIS)
          \<and> (\<not> name_has toLowerCase mcpTool [''chart'', ''plot'', ''analyze'', ''graph''] \<longrightarrow>
              (name_has toLowerCase mcpTool [''http'', ''api'', ''request'', ''fetch''] \<longrightarrow>
                 category (adaptMcpTool toLowerCase mcpTool) = COMMUNICATION)
            \<and> (\<not> name_has toLowerCase mcpTool [''http'', ''api'', ''request'', ''fetch''] \<longrightarrow>
                 category (adaptMcpTool toLowerCase mcpTool) = CUSTOM)))))
   \<and> (name_has toLowerCase mcpTool ws \<longleftrightarrow>
        (\<exists>k a b. k \<in> set ws \<and> toLowerCase (info_name mcpTool) = a @ k @ b))
   \<and> (search_rule toLowerCase mcpTool \<longleftrightarrow>
        (\<exists>k a b. k \<in> set [''search'', ''find'', ''query'']
            \<and> toLowerCase (info_name mcpTool) = a @ k @ b)
        \<or> (\<exists>d a b. description mcpTool = Some d \<and> toLowerCase d = a @ ''search'' @ b))"
proof -
  have 1: "tool_id (adaptMcpTool toLowerCase mcpTool) = serverName mcpTool @ ''/'' @ info_name mcpTool"
    by (simp add: adaptMcpTool_def)
  have 2: "map_of (mcpTools (registerMcpTool toLowerCase mcpTool r))
      (serverName mcpTool @ ''/'' @ info_name mcpTool) = Some (adaptMcpTool toLowerCase mcpTool)"
    by (simp add: registerMcpTool_def Let_def 1 update_conv')
  have 3: "priority (adaptMcpTool toLowerCase mcpTool) = 100" by (simp add: adaptMcpTool_def)
  from builtin_priorities
  have 4: "list_all (\<lambda>entry. priority (snd entry) < priority (adaptMcpTool toLowerCase mcpTool))
       (tools new_ToolRegistry)"
    by (auto simp: 3 list_all_iff)
  have c: "category (adaptMcpTool toLowerCase mcpTool) = inferCategory toLowerCase mcpTool"
    by (simp add: adaptMcpTool_def)
  have 5: "name_has toLowerCase mcpTool ws \<longleftrightarrow>
        (\<exists>k a b. k \<in> set ws \<and> toLowerCase (info_name mcpTool) = a @ k @ b)" for ws
    by (auto simp: name_has_def string_includes_def sublist_def list_ex_iff)
  have 6: "description_has toLowerCase mcpTool ''search'' \<longleftrightarrow>
        (\<exists>d a b. description mcpTool = Some d \<and> toLowerCase d = a @ ''search'' @ b)"
    by (auto simp: description_has_def string_includes_def sublist_def split: option.splits)
  have 7: "search_rule toLowerCase mcpTool \<longleftrightarrow>
        (\<exists>k a b. k \<in> set [''search'', ''find'', ''query'']
            \<and> toLowerCase (info_name mcpTool) = a @ k @ b)
        \<or> (\<exists>d a b. description mcpTool = Some d \<and> toLowerCase d = a @ ''search'' @ b)"
    unfolding search_rule_def 5 6 ..
  have 8: "category (adaptMcpTool toLowerCase mcpTool) =
    (if search_rule toLowerCase mcpTool then SEARCH
     else if name_has toLowerCase mcpTool [''file'', ''read'', ''write'', ''edit''] then FILE_OPS
     else if name_has toLowerCase mcpTool [''exec'', ''run'', ''command'', ''shell''] then EXECUTION
     else if name_has toLowerCase mcpTool [''chart'', ''plot'', ''analyze'', ''graph''] then ANALYSIS
     else if name_has toLowerCase mcpTool [''http'', ''api'', ''request'', ''fetch''] then COMMUNICATION
     else CUSTOM)"
    unfolding c by (rule inferCategory_cascade)
  have 9: "(search_rule toLowerCase mcpTool \<longrightarrow> category (adaptMcpTool toLowerCase mcpTool) = SEARCH)
   \<and> (\<not> search_rule toLowerCase mcpTool \<longrightarrow>
        (name_has toLowerCase mcpTool [''file'', ''read'', ''write'', ''edit''] \<longrightarrow>
           category (adaptMcpTool toLowerCase mcpTool) = FILE_OPS)
      \<and> (\<not> name_has toLowerCase mcpTool [''file'', ''read'', ''write'', ''edit''] \<longrightarrow>
          (name_has toLowerCase mcpTool [''exec'', ''run'', ''command'', ''shell''] \<longrightarrow>
             category (adaptMcpTool toLowerCase mcpTool) = EXECUTION)
        \<and> (\<not> name_has toLowerCase mcpTool [''exec'', ''run'', ''command'', ''shell''] \<longrightarrow>
            (name_has toLowerCase mcpTool [''chart'', ''plot'', ''analyze'', ''graph''] \<longrightarrow>
               category (adaptMcpTool toLowerCase mcpTool) = ANALYSIS)
          \<and> (\<not> name_has toLowerCase mcpTool [''chart'', ''plot'', ''analyze'', ''graph''] \<longrightarrow>
              (name_has toLowerCase mcpTool [''http'', ''api'', ''request'', ''fetch''] \<longrightarrow>
                 category (adaptMcpTool toLowerCase mcpTool) = COMMUNICATION)
            \<and> (\<not> name_has toLowerCase mcpTool [''http'', ''api'', ''request'', ''fetch''] \<longrightarrow>
                 category (adaptMcpTool toLowerCase mcpTool) = CUSTOM)))))"
    unfolding 8 by simp
  from 1 2 3 4 9 5 [of ws] 7 show ?thesis by blast
qed

lemma endsWith_eval:
  "endsWith s suf \<longleftrightarrow> length suf \<le> length s \<and> drop (length s - length suf) s = suf"
proof
  assume "endsWith s suf"
  then obtain zs where "s = zs @ suf" by (auto simp: endsWith_def suffix_def)
  then show "length suf \<le> length s \<and> drop (length s - length suf) s = suf" by simp
next
  assume a: "length suf \<le> length s \<and> drop (length s - length suf) s = suf"
  then have "s = take (length s - length suf) s @ suf"
    by (metis append_take_drop_id)
  then show "endsWith s suf" unfolding endsWith_def suffix_def by blast
qed

lemmas tool_eval =
  new_ToolRegistry_tools new_ToolRegistry_mcpTools new_ToolRegistry_eventTypeMapping
  two_candidates_def eventTypeMapping_set_def registerMcpTool_def adaptMcpTool_def
  resolveToolForEvent_def survivors_def candidateIds_def getTool_def isToolAvailable_def
  all_platforms_def shell_exec_def file_operations_def agent_browser_def web_search_def
  getDefaultTool_def mcp_event_def method_event_def extractMethodFromInvocation_def
  inferMcpToolId_def createGenericMcpTool_def docs_search_info_def empty_name_info_def
  lookup_info_def plot_info_def read_file_info_def run_command_info_def http_fetch_info_def
  endsWith_eval prefix_code
  string_includes_def sublist_code ascii_toLowerCase_def lower_char_def
  inferCategory_def inferCapabilities_def has_property_def selectRenderer_def
  getIconForCategory_def name_has_def description_has_def search_rule_def Let_def

text \<open>The theorem \<open>resolveToolForEvent_by_priority\<close> at concrete inputs that satisfy its hypotheses.\<close>

theorem resolveToolForEvent_by_priority_witness:
  "EXEC_COMMAND_BEGIN \<noteq> MCP_TOOL_CALL_BEGIN \<and> EXEC_COMMAND_BEGIN \<noteq> MCP_TOOL_CALL_END
   \<and> map_of (eventTypeMapping two_candidates) EXEC_COMMAND_BEGIN
       = Some [''file_operations'', ''shell_exec'']
   \<and> map_of (tools two_candidates) ''file_operations'' = Some file_operations
   \<and> map_of (tools two_candidates) ''shell_exec'' = Some shell_exec
   \<and> ''linux'' \<in> set (platforms (availability file_operations))
   \<and> ''linux'' \<in> set (platforms (availability shell_exec))
   \<and> priority shell_exec = 10 \<and> priority file_operations = 20
   \<and> resolveToolForEvent ''linux'' two_candidates EXEC_COMMAND_BEGIN None = shell_exec
   \<and> ''aix'' \<notin> set (platforms (availability file_operations))
   \<and> ''aix'' \<notin> set (platforms (availability shell_exec))
   \<and> tool_id (resolveToolForEvent ''aix'' two_candidates EXEC_COMMAND_BEGIN None) = ''unknown''
   \<and> priority (resolveToolForEvent ''aix'' two_candidates EXEC_COMMAND_BEGIN None) = 999
   \<and> map_of (eventTypeMapping new_ToolRegistry) (OTHER_EVENT ''task_started'') = None
   \<and> resolveToolForEvent ''linux'' new_ToolRegistry (OTHER_EVENT ''task_started'') None
       = getDefaultTool (OTHER_EVENT ''task_started'')
   \<and> map_of (eventTypeMapping new_ToolRegistry) WEB_SEARCH_END = Some [''web_search'']
   \<and> resolveToolForEvent ''linux'' new_ToolRegistry WEB_SEARCH_END None = web_search"
proof -
  have h1: "EXEC_COMMAND_BEGIN \<noteq> MCP_TOOL_CALL_BEGIN" "EXEC_COMMAND_BEGIN \<noteq> MCP_TOOL_CALL_END"
    "OTHER_EVENT ''task_started'' \<noteq> MCP_TOOL_CALL_BEGIN"
    "OTHER_EVENT ''task_started'' \<noteq> MCP_TOOL_CALL_END"
    "WEB_SEARCH_END \<noteq> MCP_TOOL_CALL_BEGIN" "WEB_SEARCH_END \<noteq> MCP_TOOL_CALL_END"
    by simp_all
  have t: "map_of (eventTypeMapping two_candidates) EXEC_COMMAND_BEGIN
       = Some [''file_operations'', ''shell_exec'']"
    "map_of (tools two_candidates) ''file_operations'' = Some file_operations"
    "map_of (tools two_candidates) ''shell_exec'' = Some shell_exec"
    "map_of (eventTypeMapping new_ToolRegistry) (OTHER_EVENT ''task_started'') = None"
    "map_of (eventTypeMapping new_ToolRegistry) WEB_SEARCH_END = Some [''web_search'']"
    "map_of (tools new_ToolRegistry) ''web_search'' = Some web_search"
    by (simp_all add: two_candidates_def eventTypeMapping_set_def new_ToolRegistry_tools
        new_ToolRegistry_eventTypeMapping)
  have pl: "''linux'' \<in> set (platforms (availability file_operations))"
    "''linux'' \<in> set (platforms (availability shell_exec))"
    "''linux'' \<in> set (platforms (availability web_search))"
    "''aix'' \<notin> set (platforms (availability file_operations))"
    "''aix'' \<notin> set (platforms (availability shell_exec))"
    by (simp_all add: file_operations_def shell_exec_def web_search_def all_platforms_def)
  have h4: "priority shell_exec = 10" "priority file_operations = 20"
    by (simp_all add: shell_exec_def file_operations_def)
  have l: "[file_operations, shell_exec] =
      filter (\<lambda>tool. ''linux'' \<in> set (platforms (availability tool)))
        (List.map_filter
          (\<lambda>i. case map_of (tools two_candidates) i of Some tool \<Rightarrow> Some tool
               | None \<Rightarrow> map_of (mcpTools two_candidates) i)
          (case map_of (eventTypeMapping two_candidates) EXEC_COMMAND_BEGIN of
             Some l \<Rightarrow> l | None \<Rightarrow> []))"
    by (simp add: t pl)
  have a: "[] =
      filter (\<lambda>tool. ''aix'' \<in> set (platforms (availability tool)))
        (List.map_filter
          (\<lambda>i. case map_of (tools two_candidates) i of Some tool \<Rightarrow> Some tool
               | None \<Rightarrow> map_of (mcpTools two_candidates) i)
          (case map_of (eventTypeMapping two_candidates) EXEC_COMMAND_BEGIN of
             Some l \<Rightarrow> l | None \<Rightarrow> []))"
    by (simp add: t pl)
  have o: "[] =
      filter (\<lambda>tool. ''linux'' \<in> set (platforms (availability tool)))
        (List.map_filter
          (\<lambda>i. case map_of (tools new_ToolRegistry) i of Some tool \<Rightarrow> Some tool
               | None \<Rightarrow> map_of (mcpTools new_ToolRegistry) i)
          (case map_of (eventTypeMapping new_ToolRegistry) (OTHER_EVENT ''task_started'') of
             Some l \<Rightarrow> l | None \<Rightarrow> []))"
    by (simp add: t)
  have w: "[web_search] =
      filter (\<lambda>tool. ''linux'' \<in> set (platforms (availability tool)))
        (List.map_filter
          (\<lambda>i. case map_of (tools new_ToolRegistry) i of Some tool \<Rightarrow> Some tool
               | None \<Rightarrow> map_of (mcpTools new_ToolRegistry) i)
          (case map_of (eventTypeMapping new_ToolRegistry) WEB_SEARCH_END of
             Some l \<Rightarrow> l | None \<Rightarrow> []))"
    by (simp add: t pl)
  from resolveToolForEvent_by_priority [OF h1(1) h1(2) refl refl l, of None] h4
  have c1: "resolveToolForEvent ''linux'' two_candidates EXEC_COMMAND_BEGIN None = shell_exec"
    by blast
  from resolveToolForEvent_by_priority [OF h1(1) h1(2) refl refl a, of None]
  have c2: "tool_id (resolveToolForEvent ''aix'' two_candidates EXEC_COMMAND_BEGIN None)
      = ''unknown''"
    "priority (resolveToolForEvent ''aix'' two_candidates EXEC_COMMAND_BEGIN None) = 999"
    by blast+
  from resolveToolForEvent_by_priority [OF h1(3) h1(4) refl refl o, of None]
  have c3: "resolveToolForEvent ''linux'' new_ToolRegistry (OTHER_EVENT ''task_started'') None
       = getDefaultTool (OTHER_EVENT ''task_started'')" by blast
  from resolveToolForEvent_by_priority [OF h1(5) h1(6) refl refl w, of None]
  have "resolveToolForEvent ''linux'' new_ToolRegistry WEB_SEARCH_END None \<in> set [web_search]"
    by blast
  then have c4: "resolveToolForEvent ''linux'' new_ToolRegistry WEB_SEARCH_END None = web_search"
    by simp
  from h1(1,2) t(1,2,3,4,5) pl(1,2,4,5) h4 c1 c2 c3 c4 show ?thesis by blast
qed





text \<open>
  Claim C8 as stated fails for a keyword that only the description has: the
  description \<open>find a page\<close> contains \<open>find\<close>, and the category is Custom.
\<close>

theorem description_keyword_counterexample:
  "description lookup_info = Some ''find a page''
   \<and> string_includes ''find a page'' ''find''
   \<and> category (adaptMcpTool ascii_toLowerCase lookup_info) = CUSTOM
   \<and> category (adaptMcpTool ascii_toLowerCase lookup_info) \<noteq> SEARCH"
  by (simp add: tool_eval)

text \<open>The theorem \<open>registerMcpTool_descriptor\<close> at concrete inputs that satisfy its hypotheses.\<close>

theorem registerMcpTool_descriptor_witness:
  "search_rule ascii_toLowerCase docs_search_info \<and> category (adaptMcpTool ascii_toLowerCase docs_search_info) = SEARCH
   \<and> \<not> search_rule ascii_toLowerCase read_file_info
   \<and> name_has ascii_toLowerCase read_file_info [''file'', ''read'', ''write'', ''edit'']
   \<and> category (adaptMcpTool ascii_toLowerCase read_file_info) = FILE_OPS
   \<and> \<not> name_has ascii_toLowerCase run_command_info [''file'', ''read'', ''write'', ''edit'']
   \<and> name_has ascii_toLowerCase run_command_info [''exec'', ''run'', ''command'', ''shell'']
   \<and> category (adaptMcpTool ascii_toLowerCase run_command_info) = EXECUTION
   \<and> \<not> name_has ascii_toLowerCase plot_info [''exec'', ''run'', ''command'', ''shell'']
   \<and> name_has ascii_toLowerCase plot_info [''chart'', ''plot'', ''analyze'', ''graph'']
   \<and> category (adaptMcpTool ascii_toLowerCase plot_info) = ANALYSIS
   \<and> \<not> name_has ascii_toLowerCase http_fetch_info [''chart'', ''plot'', ''analyze'', ''graph'']
   \<and> name_has ascii_toLowerCase http_fetch_info [''http'', ''api'', ''request'', ''fetch'']
   \<and> category (adaptMcpTool ascii_toLowerCase http_fetch_info) = COMMUNICATION
   \<and> \<not> name_has ascii_toLowerCase lookup_info [''http'', ''api'', ''request'', ''fetch'']
   \<and> category (adaptMcpTool ascii_toLowerCase lookup_info) = CUSTOM
   \<and> tool_id (adaptMcpTool ascii_toLowerCase docs_search_info) = ''docs/search_docs''
   \<and> map_of (mcpTools (registerMcpTool ascii_toLowerCase docs_search_info new_ToolRegistry)) ''docs/search_docs''
       = Some (adaptMcpTool ascii_toLowerCase docs_search_info)
   \<and> list_all (\<lambda>entry. priority (snd entry) < 100) (tools new_ToolRegistry)"
proof -
  have s: "search_rule ascii_toLowerCase docs_search_info" "\<not> search_rule ascii_toLowerCase read_file_info"
    "\<not> search_rule ascii_toLowerCase run_command_info" "\<not> search_rule ascii_toLowerCase plot_info"
    "\<not> search_rule ascii_toLowerCase http_fetch_info" "\<not> search_rule ascii_toLowerCase lookup_info"
    by (simp_all add: tool_eval)
  have f: "name_has ascii_toLowerCase read_file_info [''file'', ''read'', ''write'', ''edit'']"
    "\<not> name_has ascii_toLowerCase run_command_info [''file'', ''read'', ''write'', ''edit'']"
    "\<not> name_has ascii_toLowerCase plot_info [''file'', ''read'', ''write'', ''edit'']"
    "\<not> name_has ascii_toLowerCase http_fetch_info [''file'', ''read'', ''write'', ''edit'']"
    "\<not> name_has ascii_toLowerCase lookup_info [''file'', ''read'', ''write'', ''edit'']"
    by (simp_all add: tool_eval)
  have x: "name_has ascii_toLowerCase run_command_info [''exec'', ''run'', ''command'', ''shell'']"
    "\<not> name_has ascii_toLowerCase plot_info [''exec'', ''run'', ''command'', ''shell'']"
    "\<not> name_has ascii_toLowerCase http_fetch_info [''exec'', ''run'', ''command'', ''shell'']"
    "\<not> name_has ascii_toLowerCase lookup_info [''exec'', ''run'', ''command'', ''shell'']"
    by (simp_all add: tool_eval)
  have c: "name_has ascii_toLowerCase plot_info [''chart'', ''plot'', ''analyze'', ''graph'']"
    "\<not> name_has ascii_toLowerCase http_fetch_info [''chart'', ''plot'', ''analyze'', ''graph'']"
    "\<not> name_has ascii_toLowerCase lookup_info [''chart'', ''plot'', ''analyze'', ''graph'']"
    by (simp_all add: tool_eval)
  have h: "name_has ascii_toLowerCase http_fetch_info [''http'', ''api'', ''request'', ''fetch'']"
    "\<not> name_has ascii_toLowerCase lookup_info [''http'', ''api'', ''request'', ''fetch'']"
    by (simp_all add: tool_eval)
  from registerMcpTool_descriptor [of ascii_toLowerCase docs_search_info new_ToolRegistry] s(1)
  have 1: "category (adaptMcpTool ascii_toLowerCase docs_search_info) = SEARCH"
    "tool_id (adaptMcpTool ascii_toLowerCase docs_search_info)
      = serverName docs_search_info @ ''/'' @ info_name docs_search_info"
    "map_of (mcpTools (registerMcpTool ascii_toLowerCase docs_search_info new_ToolRegistry))
       (serverName docs_search_info @ ''/'' @ info_name docs_search_info)
       = Some (adaptMcpTool ascii_toLowerCase docs_search_info)"
    "priority (adaptMcpTool ascii_toLowerCase docs_search_info) = 100"
    "list_all (\<lambda>entry. priority (snd entry) < priority (adaptMcpTool ascii_toLowerCase docs_search_info))
       (tools new_ToolRegistry)"
    by blast+
  from registerMcpTool_descriptor [of ascii_toLowerCase read_file_info new_ToolRegistry] s(2) f(1)
  have 2: "category (adaptMcpTool ascii_toLowerCase read_file_info) = FILE_OPS" by blast
  from registerMcpTool_descriptor [of ascii_toLowerCase run_command_info new_ToolRegistry] s(3) f(2) x(1)
  have 3: "category (adaptMcpTool ascii_toLowerCase run_command_info) = EXECUTION" by blast
  from registerMcpTool_descriptor [of ascii_toLowerCase plot_info new_ToolRegistry] s(4) f(3) x(2) c(1)
  have 4: "category (adaptMcpTool ascii_toLowerCase plot_info) = ANALYSIS" by blast
  from registerMcpTool_descriptor [of ascii_toLowerCase http_fetch_info new_ToolRegistry] s(5) f(4) x(3) c(2) h(1)
  have 5: "category (adaptMcpTool ascii_toLowerCase http_fetch_info) = COMMUNICATION" by blast
  from registerMcpTool_descriptor [of ascii_toLowerCase lookup_info new_ToolRegistry] s(6) f(5) x(4) c(3) h(2)
  have 6: "category (adaptMcpTool ascii_toLowerCase lookup_info) = CUSTOM" by blast
  have e: "serverName docs_search_info @ ''/'' @ info_name docs_search_info = ''docs/search_docs''"
    by (simp add: docs_search_info_def)
  from 1 2 3 4 5 6 s f x c h show ?thesis unfolding e by simp
qed

end
